theory Spec2Isabelle
  imports Main
begin

section \<open>Python strings\<close>

text \<open>
  A Python \<open>str\<close> is a sequence of Unicode code points, and GTK counts buffer offsets in
  the same unit, so a character is its code point and \<open>len\<close> is \<open>length\<close>.
  \<open>py_str ''abc''\<close> is the Python literal \<open>'abc'\<close>.
\<close>

type_synonym uchar = int
type_synonym ustring = "uchar list"

abbreviation py_str :: "string \<Rightarrow> ustring" where
  "py_str s \<equiv> map of_char s"

datatype error = IndexError | ValueError | AttributeError

text \<open>Slice bounds as Python normalises them: a negative bound counts from the end.\<close>

definition py_bound :: "'a list \<Rightarrow> int \<Rightarrow> nat" where
  "py_bound xs i =
     (let n = int (length xs)
      in if i < 0 then nat (max 0 (i + n)) else nat (min i n))"

definition py_slice :: "'a list \<Rightarrow> int \<Rightarrow> int \<Rightarrow> 'a list" where
  \<comment> \<open>\<open>xs[a:b]\<close>\<close>
  "py_slice xs a b = take (py_bound xs b - py_bound xs a) (drop (py_bound xs a) xs)"

definition py_slice_from :: "'a list \<Rightarrow> int \<Rightarrow> 'a list" where
  \<comment> \<open>\<open>xs[a:]\<close>\<close>
  "py_slice_from xs a = drop (py_bound xs a) xs"

definition py_index :: "'a list \<Rightarrow> int \<Rightarrow> error + 'a" where
  \<comment> \<open>\<open>xs[i]\<close>\<close>
  "py_index xs i =
     (let n = int (length xs); j = (if i < 0 then i + n else i)
      in if 0 \<le> j \<and> j < n then Inr (xs ! nat j) else Inl IndexError)"

primrec first_index :: "'a \<Rightarrow> 'a list \<Rightarrow> nat option" where
  "first_index c [] = None"
| "first_index c (x # xs) =
     (if x = c then Some 0 else map_option Suc (first_index c xs))"

definition py_find :: "ustring \<Rightarrow> uchar \<Rightarrow> int \<Rightarrow> int" where
  \<comment> \<open>\<open>txt.find(c, start)\<close> for a one-character \<open>c\<close>: the lowest index from \<open>start\<close> on, or -1\<close>
  "py_find txt c start =
     (let k = py_bound txt start
      in if int (length txt) < start then - 1
         else (case first_index c (drop k txt) of
                 None \<Rightarrow> - 1
               | Some j \<Rightarrow> int (k + j)))"

definition decimal_zeros :: "uchar list" where
  \<comment> \<open>the digit zero of every decimal script (Unicode 14, CPython 3.11); the nine code
      points behind each are its digits one to nine\<close>
  "decimal_zeros =
     [48, 1632, 1776, 1984, 2406, 2534, 2662, 2790, 2918, 3046, 3174, 3302, 3430, 3558, 3664,
      3792, 3872, 4160, 4240, 6112, 6160, 6470, 6608, 6784, 6800, 6992, 7088, 7232, 7248,
      42528, 43216, 43264, 43472, 43504, 43600, 44016, 65296, 66720, 68912, 69734, 69872,
      69942, 70096, 70384, 70736, 70864, 71248, 71360, 71472, 71904, 72016, 72784, 73040,
      73120, 92768, 92864, 93008, 120782, 120792, 120802, 120812, 120822, 123200, 123632,
      125264, 130032]"

definition py_int :: "uchar \<Rightarrow> error + int" where
  \<comment> \<open>\<open>int(c)\<close> for a one-character string: a decimal digit converts, every other
      character raises\<close>
  "py_int c =
     (case find (\<lambda>z. z \<le> c \<and> c < z + 10) decimal_zeros of
        Some z \<Rightarrow> Inr (c - z)
      | None \<Rightarrow> Inl ValueError)"

section \<open>The toolkit's text buffer\<close>

text \<open>
  \<open>NoteBuffer\<close> extends \<open>Gtk.TextBuffer\<close>. The buffer is a sequence of cells: a
  character, or a child anchor holding the one widget the program attaches to it (a check
  button with its active state, or the bullet image). Each cell carries the set of tags
  applied to it; a tag toggles at an offset when the cells on both sides differ in it.
  An iterator is its offset.
\<close>

datatype widget = CheckButton bool | Image

datatype content = Chr uchar | Anchor widget

datatype text_tag = Named ustring | Anonymous nat

fun props_name :: "text_tag \<Rightarrow> ustring option" where
  "props_name (Named n) = Some n"
| "props_name (Anonymous _) = None"

type_synonym cell = "content \<times> text_tag set"

datatype deletion_type = Selection | Other | Backward | Foreward

datatype anchor_type = Check | Bullet

text \<open>
  The action classes. Every action belongs to the one buffer, so the \<open>buffer\<close> field is
  left out. \<open>ObjectInsertAction\<close> has no \<open>checked\<close> attribute until \<open>remove\<close> sets it.
\<close>

datatype action =
    AdditionAction ustring int
  | DeletionAction ustring int deletion_type
  | ObjectInsertAction bool anchor_type int "bool option"
  | TagAction ustring int int bool
  | CompositeAction "action list"

datatype diagnostic = NothingToUndo | NothingToRedo | TagsNotClosed "text_tag list"

record note_buffer =
  cells :: "cell list"
  tag_table :: "text_tag list"
  insert_mark :: nat
  selection_bound :: nat
  internal_action_count :: int
  in_composite :: int
  composite_actions :: "action list"
  undo_actions :: "action list"
  redo_actions :: "action list"
  idle_sources :: nat
  content_changed :: nat
  printed :: "diagnostic list"

definition TAG_DEFINITIONS :: "ustring list" where
  "TAG_DEFINITIONS =
     [py_str ''bold'', py_str ''italic'', py_str ''underline'', py_str ''link'', py_str ''red'']"

definition NoteBuffer_init :: note_buffer where
  \<comment> \<open>a fresh buffer after \<open>__init__\<close>: empty, one tag per entry of \<open>TAG_DEFINITIONS\<close>\<close>
  "NoteBuffer_init =
     \<lparr>cells = [], tag_table = map Named TAG_DEFINITIONS, insert_mark = 0, selection_bound = 0,
      internal_action_count = 0, in_composite = 0, composite_actions = [],
      undo_actions = [], redo_actions = [], idle_sources = 0, content_changed = 0,
      printed = []\<rparr>"

definition get_char_count :: "note_buffer \<Rightarrow> nat" where
  "get_char_count s = length (cells s)"

definition get_iter_at_offset :: "note_buffer \<Rightarrow> int \<Rightarrow> nat" where
  \<comment> \<open>an offset below zero or past the end gives the end iterator\<close>
  "get_iter_at_offset s off =
     (if off < 0 \<or> int (get_char_count s) < off then get_char_count s else nat off)"

definition get_end_iter :: "note_buffer \<Rightarrow> nat" where
  "get_end_iter s = get_char_count s"

definition get_child_anchor :: "note_buffer \<Rightarrow> nat \<Rightarrow> widget option" where
  \<comment> \<open>the widget of the anchor at the iterator, \<open>None\<close> where there is no anchor\<close>
  "get_child_anchor s it =
     (if it < get_char_count s
      then (case fst (cells s ! it) of Anchor w \<Rightarrow> Some w | Chr _ \<Rightarrow> None)
      else None)"

definition get_char :: "content \<Rightarrow> uchar" where
  \<comment> \<open>an anchor reads as U+FFFC\<close>
  "get_char c = (case c of Chr u \<Rightarrow> u | Anchor _ \<Rightarrow> 65532)"

definition get_slice :: "note_buffer \<Rightarrow> nat \<Rightarrow> nat \<Rightarrow> ustring" where
  \<comment> \<open>\<open>get_slice(start, end, True)\<close>\<close>
  "get_slice s a b = map (get_char \<circ> fst) (take (max a b - min a b) (drop (min a b) (cells s)))"

definition tags_at :: "note_buffer \<Rightarrow> nat \<Rightarrow> text_tag set" where
  "tags_at s it = (if it < get_char_count s then snd (cells s ! it) else {})"

definition tags_before :: "note_buffer \<Rightarrow> nat \<Rightarrow> text_tag set" where
  "tags_before s it = (if 0 < it then tags_at s (it - 1) else {})"

definition get_toggled_tags :: "note_buffer \<Rightarrow> nat \<Rightarrow> bool \<Rightarrow> text_tag list" where
  \<comment> \<open>the tags that start (\<open>toggled_on\<close>) or stop at the iterator, in tag-table order\<close>
  "get_toggled_tags s it toggled_on =
     (if toggled_on
      then filter (\<lambda>t. t \<in> tags_at s it \<and> t \<notin> tags_before s it) (tag_table s)
      else filter (\<lambda>t. t \<in> tags_before s it \<and> t \<notin> tags_at s it) (tag_table s))"

definition shift_mark_insert :: "nat \<Rightarrow> nat \<Rightarrow> nat \<Rightarrow> nat" where
  \<comment> \<open>a right-gravity mark after \<open>k\<close> cells are inserted at \<open>it\<close>\<close>
  "shift_mark_insert it k m = (if it \<le> m then m + k else m)"

definition shift_mark_delete :: "nat \<Rightarrow> nat \<Rightarrow> nat \<Rightarrow> nat" where
  \<comment> \<open>a mark after the cells of \<open>[lo, hi)\<close> are deleted\<close>
  "shift_mark_delete lo hi m = (if m \<le> lo then m else if m < hi then lo else m - (hi - lo))"

definition insert_cells :: "note_buffer \<Rightarrow> nat \<Rightarrow> content list \<Rightarrow> note_buffer" where
  \<comment> \<open>new cells carry the tags that do not toggle at the insertion point\<close>
  "insert_cells s it new =
     (let cs = cells s;
          inherited = tags_before s it \<inter> tags_at s it
      in s\<lparr>cells := take it cs @ map (\<lambda>c. (c, inherited)) new @ drop it cs,
           insert_mark := shift_mark_insert it (length new) (insert_mark s),
           selection_bound := shift_mark_insert it (length new) (selection_bound s)\<rparr>)"

definition insert_text_default :: "note_buffer \<Rightarrow> nat \<Rightarrow> ustring \<Rightarrow> note_buffer" where
  \<comment> \<open>the default handler of \<open>insert-text\<close>\<close>
  "insert_text_default s it txt = insert_cells s it (map Chr txt)"

definition delete_range_default :: "note_buffer \<Rightarrow> nat \<Rightarrow> nat \<Rightarrow> note_buffer" where
  \<comment> \<open>the default handler of \<open>delete-range\<close>\<close>
  "delete_range_default s a b =
     (let lo = min a b; hi = max a b; cs = cells s
      in s\<lparr>cells := take lo cs @ drop hi cs,
           insert_mark := shift_mark_delete lo hi (insert_mark s),
           selection_bound := shift_mark_delete lo hi (selection_bound s)\<rparr>)"

definition create_child_anchor :: "note_buffer \<Rightarrow> nat \<Rightarrow> widget \<Rightarrow> note_buffer" where
  \<comment> \<open>\<open>create_child_anchor\<close> followed by the view's \<open>add_child_at_anchor\<close> of the widget\<close>
  "create_child_anchor s it w = insert_cells s it [Anchor w]"

definition retag :: "(text_tag set \<Rightarrow> text_tag set) \<Rightarrow> nat \<Rightarrow> nat \<Rightarrow> cell list \<Rightarrow> cell list" where
  "retag f lo hi cs =
     map (\<lambda>(i, c). if lo \<le> i \<and> i < hi then (fst c, f (snd c)) else c) (zip [0 ..< length cs] cs)"

definition apply_tag_by_name :: "note_buffer \<Rightarrow> ustring \<Rightarrow> nat \<Rightarrow> nat \<Rightarrow> note_buffer" where
  \<comment> \<open>a name the tag table does not hold is a toolkit warning and changes nothing\<close>
  "apply_tag_by_name s n a b =
     (if Named n \<in> set (tag_table s)
      then s\<lparr>cells := retag (insert (Named n)) (min a b) (max a b) (cells s)\<rparr>
      else s)"

definition remove_tag_by_name :: "note_buffer \<Rightarrow> ustring \<Rightarrow> nat \<Rightarrow> nat \<Rightarrow> note_buffer" where
  "remove_tag_by_name s n a b =
     (if Named n \<in> set (tag_table s)
      then s\<lparr>cells := retag (\<lambda>ts. ts - {Named n}) (min a b) (max a b) (cells s)\<rparr>
      else s)"

text \<open>
  \<open>insert\<close> and \<open>delete\<close> emit \<open>insert-text\<close> and \<open>delete-range\<close>, which first run the
  handlers \<open>on_insert\<close> and \<open>on_delete\<close> connected in \<open>__init__\<close> and then the default
  handler. \<open>TextBuffer_insert\<close> and \<open>TextBuffer_delete\<close> are these calls as they run inside
  a \<open>with self.internal_action()\<close> block: \<open>internal_action_count\<close> is nonzero there (it starts
  at 0 and is only ever raised before it is lowered), both handlers return at their first
  statement, and the default handler acts. Nothing is emitted for an empty text or an
  empty range. The full emission of \<open>insert-text\<close> is \<open>insert_text\<close> below, and
  \<open>insert_text_suppressed\<close> shows that the two agree under a nonzero counter. A deletion
  by the user, and with it the body of \<open>on_delete\<close>, is outside this embedding.
\<close>

definition TextBuffer_insert :: "note_buffer \<Rightarrow> nat \<Rightarrow> ustring \<Rightarrow> note_buffer" where
  "TextBuffer_insert s it txt = (if txt = [] then s else insert_text_default s it txt)"

definition TextBuffer_delete :: "note_buffer \<Rightarrow> nat \<Rightarrow> nat \<Rightarrow> note_buffer" where
  "TextBuffer_delete s a b = (if a = b then s else delete_range_default s a b)"

subsection \<open>Lines, cursor and selection\<close>

definition ends_line :: "cell list \<Rightarrow> nat \<Rightarrow> bool" where
  \<comment> \<open>the cell at \<open>j\<close> is the last of its line: a line feed, a paragraph separator, or a
      carriage return that no line feed follows\<close>
  "ends_line cs j =
     (j < length cs \<and>
      (case fst (cs ! j) of
         Chr c \<Rightarrow> c = 10 \<or> c = 8233 \<or>
                  (c = 13 \<and> (length cs \<le> Suc j \<or> fst (cs ! Suc j) \<noteq> Chr 10))
       | Anchor _ \<Rightarrow> False))"

fun line_start :: "cell list \<Rightarrow> nat \<Rightarrow> nat" where
  \<comment> \<open>\<open>set_line_index(0)\<close>: the start of the iterator's line\<close>
  "line_start cs 0 = 0"
| "line_start cs (Suc i) = (if ends_line cs i then Suc i else line_start cs i)"

definition get_line :: "note_buffer \<Rightarrow> nat \<Rightarrow> nat" where
  "get_line s it = length (filter (ends_line (cells s)) [0 ..< it])"

definition get_iter_at_line :: "note_buffer \<Rightarrow> nat \<Rightarrow> nat" where
  \<comment> \<open>the start of the line; the end iterator for a line the buffer does not have\<close>
  "get_iter_at_line s k =
     (let starts = 0 # map Suc (filter (ends_line (cells s)) [0 ..< get_char_count s])
      in if k < length starts then starts ! k else get_char_count s)"

definition get_has_selection :: "note_buffer \<Rightarrow> bool" where
  "get_has_selection s = (insert_mark s \<noteq> selection_bound s)"

definition get_selection_bounds :: "note_buffer \<Rightarrow> nat \<times> nat" where
  "get_selection_bounds s =
     (min (insert_mark s) (selection_bound s), max (insert_mark s) (selection_bound s))"

section \<open>Actions\<close>

definition GenericAction_maybe_join :: "action \<Rightarrow> action \<Rightarrow> bool \<times> action" where
  "GenericAction_maybe_join self new_action = (False, self)"

text \<open>\<open>maybe_join\<close> returns its result together with \<open>self\<close> as the call leaves it.\<close>

fun AdditionAction_maybe_join :: "ustring \<Rightarrow> int \<Rightarrow> action \<Rightarrow> bool \<times> action" where
  "AdditionAction_maybe_join txt position (AdditionAction new_text new_position) =
     (if new_position = position + int (length txt)
      then (True, AdditionAction (txt @ new_text) position)
      else (False, AdditionAction txt position))"
| "AdditionAction_maybe_join txt position new_action = (False, AdditionAction txt position)"

fun DeletionAction_maybe_join ::
  "ustring \<Rightarrow> int \<Rightarrow> deletion_type \<Rightarrow> action \<Rightarrow> bool \<times> action" where
  "DeletionAction_maybe_join txt position dt (DeletionAction new_text new_position new_dt) =
     (if new_dt \<noteq> dt then (False, DeletionAction txt position dt)
      else if dt = Foreward \<and> new_position = position
      then (True, DeletionAction (txt @ new_text) position dt)
      else if dt = Backward \<and> new_position = position - 1
      then (True, DeletionAction (new_text @ txt) new_position dt)
      else (False, DeletionAction txt position dt))"
| "DeletionAction_maybe_join txt position dt new_action = (False, DeletionAction txt position dt)"

fun maybe_join :: "action \<Rightarrow> action \<Rightarrow> bool \<times> action" where
  "maybe_join (AdditionAction txt position) new_action =
     AdditionAction_maybe_join txt position new_action"
| "maybe_join (DeletionAction txt position dt) new_action =
     DeletionAction_maybe_join txt position dt new_action"
| "maybe_join self new_action = GenericAction_maybe_join self new_action"

section \<open>NoteBuffer\<close>

subsection \<open>The notification guard\<close>

definition trigger_changed :: "note_buffer \<Rightarrow> note_buffer" where
  "trigger_changed s =
     (if internal_action_count s = 0 then s\<lparr>content_changed := content_changed s + 1\<rparr> else s)"

definition InternalActionHandler_enter :: "note_buffer \<Rightarrow> note_buffer" where
  "InternalActionHandler_enter s = s\<lparr>internal_action_count := internal_action_count s + 1\<rparr>"

definition InternalActionHandler_exit :: "bool \<Rightarrow> note_buffer \<Rightarrow> note_buffer" where
  \<comment> \<open>\<open>GLib.idle_add(self.trigger_changed)\<close> queues one idle source\<close>
  "InternalActionHandler_exit trigger_on_complete s =
     (let s1 = s\<lparr>internal_action_count := internal_action_count s - 1\<rparr>
      in if internal_action_count s1 = 0 \<and> trigger_on_complete
         then s1\<lparr>idle_sources := idle_sources s1 + 1\<rparr>
         else s1)"

definition internal_action ::
  "bool \<Rightarrow> (note_buffer \<Rightarrow> 'a \<times> note_buffer) \<Rightarrow> note_buffer \<Rightarrow> 'a \<times> note_buffer" where
  \<comment> \<open>\<open>with self.internal_action(trigger_on_complete): body\<close>; \<open>__exit__\<close> runs however the
      body ends, and an exception of the body (a result \<open>Inl\<close>) goes on to the caller\<close>
  "internal_action trigger_on_complete body s =
     (case body (InternalActionHandler_enter s) of
        (r, s') \<Rightarrow> (r, InternalActionHandler_exit trigger_on_complete s'))"


subsection \<open>The undo and redo stacks\<close>

definition begin_composite_action :: "note_buffer \<Rightarrow> note_buffer" where
  "begin_composite_action s = s\<lparr>in_composite := in_composite s + 1\<rparr>"

definition add_undo_action :: "note_buffer \<Rightarrow> action \<Rightarrow> note_buffer" where
  "add_undo_action s a =
     (if in_composite s \<noteq> 0
      then s\<lparr>composite_actions := composite_actions s @ [a]\<rparr>
      else s\<lparr>undo_actions := undo_actions s @ [a], redo_actions := []\<rparr>)"

definition end_composite_action :: "note_buffer \<Rightarrow> note_buffer" where
  "end_composite_action s =
     (let s1 = s\<lparr>in_composite := in_composite s - 1\<rparr>
      in if in_composite s1 \<noteq> 0 \<or> length (composite_actions s1) = 0 then s1
         else (let s2 = (if length (composite_actions s1) = 1
                         then add_undo_action s1 (composite_actions s1 ! 0)
                         else add_undo_action s1 (CompositeAction (composite_actions s1)))
               in s2\<lparr>composite_actions := []\<rparr>))"

subsection \<open>Tags and objects\<close>

definition add_tag :: "note_buffer \<Rightarrow> ustring \<Rightarrow> nat \<Rightarrow> nat \<Rightarrow> action \<times> note_buffer" where
  "add_tag s tag_name a b =
     (let s1 = apply_tag_by_name s tag_name a b;
          act = TagAction tag_name (int a) (int b) True
      in (act, trigger_changed s1))"

definition ObjectInsertAction_init :: "note_buffer \<Rightarrow> nat \<Rightarrow> widget \<Rightarrow> bool \<Rightarrow> action" where
  \<comment> \<open>\<open>ObjectInsertAction(buffer, anchor, is_addition)\<close> for the anchor at \<open>it\<close>\<close>
  "ObjectInsertAction_init s it w is_addition =
     ObjectInsertAction is_addition (case w of CheckButton _ \<Rightarrow> Check | Image \<Rightarrow> Bullet)
       (int it) None"

definition add_check_button :: "note_buffer \<Rightarrow> nat \<Rightarrow> bool \<Rightarrow> action \<times> note_buffer" where
  "add_check_button s a_iter checked =
     internal_action True
       (\<lambda>s0. let s1 = create_child_anchor s0 a_iter (CheckButton checked)
             in (ObjectInsertAction_init s1 a_iter (CheckButton checked) True, s1)) s"

definition add_bullet :: "note_buffer \<Rightarrow> nat \<Rightarrow> action \<times> note_buffer" where
  "add_bullet s a_iter =
     internal_action True
       (\<lambda>s0. let s1 = create_child_anchor s0 a_iter Image
             in (ObjectInsertAction_init s1 a_iter Image True, s1)) s"

definition tag_selection :: "note_buffer \<Rightarrow> ustring \<Rightarrow> note_buffer" where
  "tag_selection s tag_name =
     (if get_has_selection s
      then (case add_tag s tag_name (fst (get_selection_bounds s)) (snd (get_selection_bounds s)) of
              (act, s1) \<Rightarrow> add_undo_action s1 act)
      else (case add_tag s tag_name (insert_mark s) (insert_mark s) of
              (act, s1) \<Rightarrow> add_undo_action s1 act))"

subsection \<open>Recording insertions\<close>

definition maybe_repeat ::
  "note_buffer \<Rightarrow> nat \<Rightarrow> action \<Rightarrow> bool \<times> nat \<times> note_buffer" where
  \<comment> \<open>returns its result, \<open>current_iter\<close> as the call leaves it, and the buffer\<close>
  "maybe_repeat s current_iter prev_action =
     (case get_child_anchor s (line_start (cells s) current_iter) of
        None \<Rightarrow> (False, current_iter, s)
      | Some w \<Rightarrow>
          (let offset = int current_iter;
               (act, s1) = (case w of
                              CheckButton _ \<Rightarrow> add_check_button s current_iter False
                            | Image \<Rightarrow> add_bullet s current_iter);
               s2 = add_undo_action s1 (CompositeAction [prev_action, act])
           in (True, get_iter_at_offset s2 offset, s2)))"

definition separators :: "ustring list" where
  \<comment> \<open>\<open>['\n', '\t', ' ', '.', ',', ';', ':']\<close>\<close>
  "separators = [[10], [9], py_str '' '', py_str ''.'', py_str '','', py_str '';'', py_str '':'']"

text \<open>
  \<open>get_url_start\<close> lives in the module \<open>util\<close>; \<open>on_insert\<close> takes it as a parameter, as
  the function from the text before the insertion point to \<open>match.start()\<close>, \<open>None\<close> when
  there is no match. \<open>on_insert\<close> returns \<open>location\<close> as it leaves it and the buffer.
\<close>

definition on_insert ::
  "(ustring \<Rightarrow> int option) \<Rightarrow> note_buffer \<Rightarrow> nat \<Rightarrow> ustring \<Rightarrow> nat \<times> note_buffer" where
  "on_insert get_url_start s location txt =
     (if internal_action_count s \<noteq> 0 then (location, s)
      else internal_action True
        (\<lambda>s0.
           let act = AdditionAction txt (int location);
               s1 = (if txt \<in> set separators
                     then (case get_url_start (get_slice s0 0 location) of
                             None \<Rightarrow> s0
                           | Some m \<Rightarrow>
                               (case add_tag s0 (py_str ''link'') (get_iter_at_offset s0 m) location of
                                  (tag_act, s') \<Rightarrow> add_undo_action s' tag_act))
                     else s0);
               (compound, location', s2) =
                  (if txt = [10] then maybe_repeat s1 location act else (False, location, s1));
               s3 = (if compound then s2
                     else if length (undo_actions s2) = 0 then add_undo_action s2 act
                     else (case maybe_join (last (undo_actions s2)) act of
                             (joined, top_action) \<Rightarrow>
                               (let s' = s2\<lparr>undo_actions := butlast (undo_actions s2) @ [top_action]\<rparr>
                                in if joined then s' else add_undo_action s' act)))
           in (location', s3)) s)"

definition insert_text ::
  "(ustring \<Rightarrow> int option) \<Rightarrow> note_buffer \<Rightarrow> nat \<Rightarrow> ustring \<Rightarrow> note_buffer" where
  \<comment> \<open>\<open>insert(iter, txt)\<close>: the \<open>insert-text\<close> emission, handler first\<close>
  "insert_text get_url_start s it txt =
     (if txt = [] then s
      else (case on_insert get_url_start s it txt of
              (location, s1) \<Rightarrow> insert_text_default s1 location txt))"

definition user_insert_text ::
  "(ustring \<Rightarrow> int option) \<Rightarrow> note_buffer \<Rightarrow> nat \<Rightarrow> ustring \<Rightarrow> note_buffer" where
  \<comment> \<open>typing in the view: the toolkit brackets the insertion with \<open>begin-user-action\<close> and
      \<open>end-user-action\<close>\<close>
  "user_insert_text get_url_start s it txt =
     end_composite_action (insert_text get_url_start (begin_composite_action s) it txt)"

subsection \<open>Replaying actions\<close>

definition AdditionAction_undo :: "ustring \<Rightarrow> int \<Rightarrow> note_buffer \<Rightarrow> note_buffer" where
  "AdditionAction_undo txt position s =
     TextBuffer_delete s (get_iter_at_offset s position)
       (get_iter_at_offset s (position + int (length txt)))"

definition AdditionAction_redo :: "ustring \<Rightarrow> int \<Rightarrow> note_buffer \<Rightarrow> note_buffer" where
  "AdditionAction_redo txt position s = TextBuffer_insert s (get_iter_at_offset s position) txt"

definition DeletionAction_undo :: "ustring \<Rightarrow> int \<Rightarrow> note_buffer \<Rightarrow> note_buffer" where
  "DeletionAction_undo txt position s = TextBuffer_insert s (get_iter_at_offset s position) txt"

definition DeletionAction_redo :: "ustring \<Rightarrow> int \<Rightarrow> note_buffer \<Rightarrow> note_buffer" where
  "DeletionAction_redo txt position s =
     TextBuffer_delete s (get_iter_at_offset s position)
       (get_iter_at_offset s (position + int (length txt)))"

definition ObjectInsertAction_remove ::
  "anchor_type \<Rightarrow> int \<Rightarrow> bool option \<Rightarrow> note_buffer \<Rightarrow> (error + bool option) \<times> note_buffer" where
  \<comment> \<open>returns the \<open>checked\<close> attribute as the call leaves it; \<open>get_child_anchor()\<close> is
      \<open>None\<close> where no anchor stands, and the bullet image has no \<open>get_active\<close>\<close>
  "ObjectInsertAction_remove at position checked s =
     (let start_anchor_iter = get_iter_at_offset s position;
          end_anchor_iter = get_iter_at_offset s (position + 1)
      in if at = Check
         then (case get_child_anchor s start_anchor_iter of
                 Some (CheckButton active) \<Rightarrow>
                   (Inr (Some active), TextBuffer_delete s start_anchor_iter end_anchor_iter)
               | Some Image \<Rightarrow> (Inl AttributeError, s)
               | None \<Rightarrow> (Inl AttributeError, s))
         else (Inr checked, TextBuffer_delete s start_anchor_iter end_anchor_iter))"

definition ObjectInsertAction_add ::
  "anchor_type \<Rightarrow> int \<Rightarrow> bool option \<Rightarrow> note_buffer \<Rightarrow> (error + bool option) \<times> note_buffer" where
  "ObjectInsertAction_add at position checked s =
     (case at of
        Check \<Rightarrow>
          (case checked of
             None \<Rightarrow> (Inl AttributeError, s)
           | Some c \<Rightarrow> (Inr checked, snd (add_check_button s (get_iter_at_offset s position) c)))
      | Bullet \<Rightarrow> (Inr checked, snd (add_bullet s (get_iter_at_offset s position))))"

definition TagAction_remove :: "ustring \<Rightarrow> int \<Rightarrow> int \<Rightarrow> note_buffer \<Rightarrow> note_buffer" where
  "TagAction_remove n a b s =
     remove_tag_by_name s n (get_iter_at_offset s a) (get_iter_at_offset s b)"

definition TagAction_add :: "ustring \<Rightarrow> int \<Rightarrow> int \<Rightarrow> note_buffer \<Rightarrow> note_buffer" where
  "TagAction_add n a b s =
     apply_tag_by_name s n (get_iter_at_offset s a) (get_iter_at_offset s b)"

text \<open>
  \<open>action_undo\<close> and \<open>action_redo\<close> dispatch \<open>action.undo()\<close> and \<open>action.redo()\<close> on the
  class of the action and return the action as the call leaves it. \<open>undo_reversed\<close> is
  the loop of \<open>CompositeAction.undo\<close> over \<open>reversed(self.child_actions)\<close>: the last child
  first. \<open>redo_in_order\<close> is the loop of \<open>CompositeAction.redo\<close>.
\<close>

fun action_undo :: "action \<Rightarrow> note_buffer \<Rightarrow> (error + action) \<times> note_buffer"
  and undo_reversed :: "action list \<Rightarrow> note_buffer \<Rightarrow> (error + action list) \<times> note_buffer"
where
  "action_undo (AdditionAction txt position) s =
     (Inr (AdditionAction txt position), AdditionAction_undo txt position s)"
| "action_undo (DeletionAction txt position dt) s =
     (Inr (DeletionAction txt position dt), DeletionAction_undo txt position s)"
| "action_undo (ObjectInsertAction is_addition at position checked) s =
     (case (if is_addition then ObjectInsertAction_remove at position checked s
            else ObjectInsertAction_add at position checked s) of
        (Inl e, s') \<Rightarrow> (Inl e, s')
      | (Inr checked', s') \<Rightarrow> (Inr (ObjectInsertAction is_addition at position checked'), s'))"
| "action_undo (TagAction n a b is_addition) s =
     (Inr (TagAction n a b is_addition),
      if is_addition then TagAction_remove n a b s else TagAction_add n a b s)"
| "action_undo (CompositeAction child_actions) s =
     (case undo_reversed child_actions s of
        (Inl e, s') \<Rightarrow> (Inl e, s')
      | (Inr child_actions', s') \<Rightarrow> (Inr (CompositeAction child_actions'), s'))"
| "undo_reversed [] s = (Inr [], s)"
| "undo_reversed (a # later) s =
     (case undo_reversed later s of
        (Inl e, s1) \<Rightarrow> (Inl e, s1)
      | (Inr later', s1) \<Rightarrow>
          (case action_undo a s1 of
             (Inl e, s2) \<Rightarrow> (Inl e, s2)
           | (Inr a', s2) \<Rightarrow> (Inr (a' # later'), s2)))"

fun action_redo :: "action \<Rightarrow> note_buffer \<Rightarrow> (error + action) \<times> note_buffer"
  and redo_in_order :: "action list \<Rightarrow> note_buffer \<Rightarrow> (error + action list) \<times> note_buffer"
where
  "action_redo (AdditionAction txt position) s =
     (Inr (AdditionAction txt position), AdditionAction_redo txt position s)"
| "action_redo (DeletionAction txt position dt) s =
     (Inr (DeletionAction txt position dt), DeletionAction_redo txt position s)"
| "action_redo (ObjectInsertAction is_addition at position checked) s =
     (case (if is_addition then ObjectInsertAction_add at position checked s
            else ObjectInsertAction_remove at position checked s) of
        (Inl e, s') \<Rightarrow> (Inl e, s')
      | (Inr checked', s') \<Rightarrow> (Inr (ObjectInsertAction is_addition at position checked'), s'))"
| "action_redo (TagAction n a b is_addition) s =
     (Inr (TagAction n a b is_addition),
      if is_addition then TagAction_add n a b s else TagAction_remove n a b s)"
| "action_redo (CompositeAction child_actions) s =
     (case redo_in_order child_actions s of
        (Inl e, s') \<Rightarrow> (Inl e, s')
      | (Inr child_actions', s') \<Rightarrow> (Inr (CompositeAction child_actions'), s'))"
| "redo_in_order [] s = (Inr [], s)"
| "redo_in_order (a # later) s =
     (case action_redo a s of
        (Inl e, s1) \<Rightarrow> (Inl e, s1)
      | (Inr a', s1) \<Rightarrow>
          (case redo_in_order later s1 of
             (Inl e, s2) \<Rightarrow> (Inl e, s2)
           | (Inr later', s2) \<Rightarrow> (Inr (a' # later'), s2)))"

definition undo :: "note_buffer \<Rightarrow> (error + unit) \<times> note_buffer" where
  "undo s =
     (if length (undo_actions s) = 0
      then (Inr (), s\<lparr>printed := printed s @ [NothingToUndo]\<rparr>)
      else internal_action True
        (\<lambda>s0. let act = last (undo_actions s0);
                  s1 = s0\<lparr>undo_actions := butlast (undo_actions s0)\<rparr>
              in (case action_undo act s1 of
                    (Inl e, s2) \<Rightarrow> (Inl e, s2)
                  | (Inr act', s2) \<Rightarrow> (Inr (), s2\<lparr>redo_actions := redo_actions s2 @ [act']\<rparr>))) s)"

definition redo :: "note_buffer \<Rightarrow> (error + unit) \<times> note_buffer" where
  "redo s =
     (if length (redo_actions s) = 0
      then (Inr (), s\<lparr>printed := printed s @ [NothingToRedo]\<rparr>)
      else internal_action True
        (\<lambda>s0. let act = last (redo_actions s0);
                  s1 = s0\<lparr>redo_actions := butlast (redo_actions s0)\<rparr>
              in (case action_redo act s1 of
                    (Inl e, s2) \<Rightarrow> (Inl e, s2)
                  | (Inr act', s2) \<Rightarrow> (Inr (), s2\<lparr>undo_actions := undo_actions s2 @ [act']\<rparr>))) s)"

subsection \<open>Checklists and bullets\<close>

fun toggle_lines ::
  "(note_buffer \<Rightarrow> nat \<Rightarrow> action \<times> note_buffer) \<Rightarrow> bool \<Rightarrow> nat list \<Rightarrow> action list \<Rightarrow>
   note_buffer \<Rightarrow> (error + action list) \<times> note_buffer" where
  \<comment> \<open>the second \<open>for line in range(...)\<close> loop of \<open>toggle_checklist\<close> and \<open>toggle_bullets\<close>;
      \<open>add_object\<close> is \<open>add_check_button\<close> or \<open>add_bullet\<close>\<close>
  "toggle_lines add_object all_have [] actions s = (Inr actions, s)"
| "toggle_lines add_object all_have (line # rest) actions s =
     (if all_have
      then (case get_child_anchor s (get_iter_at_line s line) of
              None \<Rightarrow> toggle_lines add_object all_have rest actions s
            | Some w \<Rightarrow>
                (case ObjectInsertAction_init s (get_iter_at_line s line) w False of
                   ObjectInsertAction is_addition at position checked \<Rightarrow>
                     (case ObjectInsertAction_remove at position checked s of
                        (Inl e, s1) \<Rightarrow> (Inl e, s1)
                      | (Inr checked', s1) \<Rightarrow>
                          toggle_lines add_object all_have rest
                            (actions @ [ObjectInsertAction is_addition at position checked']) s1)
                 | _ \<Rightarrow> toggle_lines add_object all_have rest actions s))
      else (case add_object s (get_iter_at_line s line) of
              (act, s1) \<Rightarrow> toggle_lines add_object all_have rest (actions @ [act]) s1))"

definition toggled_line_range :: "note_buffer \<Rightarrow> nat list" where
  \<comment> \<open>\<open>range(line_index_start, line_index_end + 1)\<close> for the selection, or for the cursor\<close>
  "toggled_line_range s =
     (let (start, end_iter) = (if get_has_selection s then get_selection_bounds s
                               else (insert_mark s, insert_mark s))
      in [get_line s start ..< get_line s end_iter + 1])"

definition all_have_anchors :: "note_buffer \<Rightarrow> nat list \<Rightarrow> bool" where
  \<comment> \<open>the first \<open>for\<close> loop: \<open>all_have_checkboxes\<close>, \<open>all_have_bullets\<close>\<close>
  "all_have_anchors s lines =
     list_all (\<lambda>line. get_child_anchor s (get_iter_at_line s line) \<noteq> None) lines"

definition toggle_checklist :: "note_buffer \<Rightarrow> (error + unit) \<times> note_buffer" where
  "toggle_checklist s =
     internal_action True
       (\<lambda>s0. let lines = toggled_line_range s0
             in (case toggle_lines (\<lambda>b it. add_check_button b it False)
                        (all_have_anchors s0 lines) lines [] s0 of
                   (Inl e, s1) \<Rightarrow> (Inl e, s1)
                 | (Inr actions, s1) \<Rightarrow>
                     (Inr (), if length actions \<noteq> 0
                              then add_undo_action s1 (CompositeAction actions) else s1))) s"

definition toggle_bullets :: "note_buffer \<Rightarrow> (error + unit) \<times> note_buffer" where
  \<comment> \<open>here \<open>add_undo_action\<close> stands after the \<open>with\<close> block\<close>
  "toggle_bullets s =
     (case internal_action True
             (\<lambda>s0. let lines = toggled_line_range s0
                   in toggle_lines add_bullet (all_have_anchors s0 lines) lines [] s0) s of
        (Inl e, s1) \<Rightarrow> (Inl e, s1)
      | (Inr actions, s1) \<Rightarrow>
          (Inr (), if length actions \<noteq> 0
                   then add_undo_action s1 (CompositeAction actions) else s1))"

section \<open>The markup codec\<close>

subsection \<open>Encoding\<close>

function close_tags ::
  "text_tag list \<Rightarrow> text_tag list \<Rightarrow> text_tag list \<Rightarrow> ustring \<Rightarrow>
   text_tag list \<times> text_tag list \<times> ustring" where
  \<comment> \<open>the \<open>while len(current_tags) and len(tags)\<close> loop; \<open>pop()\<close> takes the last element;
      returns \<open>current_tags\<close>, \<open>unclosed_tags\<close> and \<open>text\<close>\<close>
  "close_tags current_tags tags unclosed_tags txt =
     (if length current_tags \<noteq> 0 \<and> length tags \<noteq> 0
      then (let tag = last current_tags; remaining = butlast current_tags
            in (case props_name tag of
                  None \<Rightarrow> close_tags remaining tags unclosed_tags txt
                | Some n \<Rightarrow>
                    if n = [] \<or> n \<notin> set TAG_DEFINITIONS
                    then close_tags remaining tags unclosed_tags txt
                    else if length tags = 0 \<or> tag \<notin> set tags
                    then close_tags remaining tags (unclosed_tags @ [tag]) txt
                    else close_tags remaining (remove1 tag tags) unclosed_tags
                           (txt @ py_str ''#tag:'' @ n @ py_str '':'')))
      else (current_tags, unclosed_tags, txt))"
  by pat_completeness auto
termination
  by (relation "measure (\<lambda>(current_tags, _, _, _). length current_tags)") auto

function start_tags ::
  "text_tag list \<Rightarrow> text_tag list \<Rightarrow> ustring \<Rightarrow> text_tag list \<times> ustring" where
  \<comment> \<open>the \<open>while len(tags)\<close> loop; returns \<open>current_tags\<close> and \<open>text\<close>\<close>
  "start_tags tags current_tags txt =
     (if length tags \<noteq> 0
      then (let tag = last tags; remaining = butlast tags
            in (case props_name tag of
                  None \<Rightarrow> start_tags remaining current_tags txt
                | Some n \<Rightarrow>
                    if n = [] \<or> n \<notin> set TAG_DEFINITIONS
                    then start_tags remaining current_tags txt
                    else start_tags remaining (current_tags @ [tag])
                           (txt @ py_str ''#tag:'' @ n @ py_str '':'')))
      else (current_tags, txt))"
  by pat_completeness auto
termination
  by (relation "measure (\<lambda>(tags, _, _). length tags)") auto

definition str_int_bool :: "bool \<Rightarrow> ustring" where
  \<comment> \<open>\<open>str(int(checked))\<close>\<close>
  "str_int_bool checked = (if checked then py_str ''1'' else py_str ''0'')"

function markup_loop ::
  "note_buffer \<Rightarrow> nat \<Rightarrow> text_tag list \<Rightarrow> ustring \<Rightarrow> text_tag list \<times> ustring" where
  \<comment> \<open>the outer \<open>while\<close> of \<open>get_internal_markup\<close>; an iterator never passes the end, so
      \<open>current_iter.compare(end) != 0\<close> is \<open>current_iter < end\<close>\<close>
  "markup_loop s current_iter current_tags txt =
     (if current_iter < get_end_iter s
      then (let (current_tags1, unclosed_tags, txt1) =
                  close_tags current_tags (get_toggled_tags s current_iter False) [] txt;
                (current_tags2, txt2) =
                  start_tags (get_toggled_tags s current_iter True)
                    (current_tags1 @ unclosed_tags) txt1;
                current_char = get_char (fst (cells s ! current_iter));
                txt3 = (if current_char = of_char CHR ''#'' then txt2 @ py_str ''#''
                        else (case get_child_anchor s current_iter of
                                Some (CheckButton checked) \<Rightarrow>
                                  txt2 @ py_str ''#check:'' @ str_int_bool checked
                              | Some Image \<Rightarrow> txt2 @ py_str ''#bullet:''
                              | None \<Rightarrow> txt2 @ [current_char]))
            in markup_loop s (Suc current_iter) current_tags2 txt3)
      else (current_tags, txt))"
  by pat_completeness auto
termination
  by (relation "measure (\<lambda>(s, current_iter, _, _). get_end_iter s - current_iter)") auto

definition get_internal_markup :: "note_buffer \<Rightarrow> ustring \<times> note_buffer" where
  "get_internal_markup s =
     (case markup_loop s 0 [] [] of
        (current_tags, txt) \<Rightarrow>
          (txt, if length current_tags \<noteq> 0
                then s\<lparr>printed := printed s @ [TagsNotClosed current_tags]\<rparr> else s))"

subsection \<open>Decoding\<close>

definition set_text :: "note_buffer \<Rightarrow> ustring \<Rightarrow> note_buffer" where
  "set_text s txt = TextBuffer_insert (TextBuffer_delete s 0 (get_end_iter s)) 0 txt"

text \<open>
  The \<open>while True\<close> loop of \<open>set_from_internal_markup\<close>. It has no exit but \<open>break\<close> and an
  exception, so its result is optional: \<open>None\<close> is a scan that never returns. \<open>open_tags\<close>
  maps a tag name to its mark; a mark is created at the end of the buffer with left
  gravity and text is only ever appended, so the mark is the offset it was created at.
\<close>

partial_function (option) markup_scan ::
  "ustring \<Rightarrow> int \<Rightarrow> (ustring \<rightharpoonup> nat) \<Rightarrow> note_buffer \<Rightarrow> ((error + unit) \<times> note_buffer) option" where
  "markup_scan txt current_index open_tags s =
     (let next_index = py_find txt (of_char CHR ''#'') current_index
      in if next_index = - 1
         then Some (Inr (), TextBuffer_insert s (get_end_iter s) (py_slice_from txt current_index))
         else (let s1 = TextBuffer_insert s (get_end_iter s) (py_slice txt current_index next_index)
               in if py_slice txt next_index (next_index + 2) = py_str ''##''
                  then markup_scan txt (next_index + 2) open_tags
                         (TextBuffer_insert s1 (get_end_iter s1) (py_str ''#''))
                  else if py_slice txt next_index (next_index + 6) = py_str ''#check''
                  then (case py_index txt (next_index + 7) of
                          Inl e \<Rightarrow> Some (Inl e, s1)
                        | Inr c \<Rightarrow>
                            (case py_int c of
                               Inl e \<Rightarrow> Some (Inl e, s1)
                             | Inr v \<Rightarrow>
                                 markup_scan txt (next_index + 8) open_tags
                                   (snd (add_check_button s1 (get_end_iter s1) (v \<noteq> 0)))))
                  else if py_slice txt next_index (next_index + 7) = py_str ''#bullet''
                  then markup_scan txt (next_index + 8) open_tags
                         (snd (add_bullet s1 (get_end_iter s1)))
                  else if py_slice txt next_index (next_index + 4) = py_str ''#tag''
                  then (let end_tag_index = py_find txt (of_char CHR '':'') (next_index + 6);
                            tag_name = py_slice txt (next_index + 5) end_tag_index
                        in (case open_tags tag_name of
                              Some mark \<Rightarrow>
                                markup_scan txt (next_index + 6 + int (length tag_name))
                                  (open_tags(tag_name := None))
                                  (apply_tag_by_name s1 tag_name mark (get_end_iter s1))
                            | None \<Rightarrow>
                                markup_scan txt (next_index + 6 + int (length tag_name))
                                  (open_tags(tag_name \<mapsto> get_end_iter s1)) s1))
                  else markup_scan txt current_index open_tags s1))"

definition set_from_internal_markup ::
  "note_buffer \<Rightarrow> ustring \<Rightarrow> ((error + unit) \<times> note_buffer) option" where
  \<comment> \<open>\<open>with self.internal_action(False)\<close> around \<open>set_text('')\<close> and the scan\<close>
  "set_from_internal_markup s txt =
     (case markup_scan txt 0 Map.empty (set_text (InternalActionHandler_enter s) []) of
        None \<Rightarrow> None
      | Some (r, s') \<Rightarrow> Some (r, InternalActionHandler_exit False s'))"

declare markup_scan.simps [code]

section \<open>Vocabulary of the properties\<close>

definition pushed_or_kept :: "note_buffer \<Rightarrow> note_buffer \<Rightarrow> bool" where
  \<comment> \<open>from \<open>s\<close> to \<open>s'\<close> the undo stack kept its length and the redo stack its content, or the
      undo stack grew and the redo stack is empty\<close>
  "pushed_or_kept s s' =
     (in_composite s' = in_composite s \<and> internal_action_count s' = internal_action_count s \<and>
      (length (undo_actions s') = length (undo_actions s) \<and> redo_actions s' = redo_actions s \<or>
       length (undo_actions s) < length (undo_actions s') \<and> redo_actions s' = []))"


text \<open>
  An action as it was constructed: \<open>remove\<close> sets the \<open>checked\<close> attribute of an
  \<open>ObjectInsertAction\<close> and nothing else ever changes an action that is replayed.
\<close>

fun forget_checked :: "action \<Rightarrow> action" where
  "forget_checked (ObjectInsertAction is_addition at position checked) =
     ObjectInsertAction is_addition at position None"
| "forget_checked (CompositeAction child_actions) =
     CompositeAction (map forget_checked child_actions)"
| "forget_checked a = a"

text \<open>
  What a replay leaves in the buffer, written out on the list of cells: the cells without
  those between two offsets, the cells with new ones at an offset (they carry the tags
  that do not toggle there), and the cells with a tag set or cleared between two offsets.
  An offset is read as \<open>get_iter_at_offset\<close> reads it.
\<close>

definition removed_cells :: "note_buffer \<Rightarrow> int \<Rightarrow> int \<Rightarrow> cell list" where
  "removed_cells s a b =
     take (min (get_iter_at_offset s a) (get_iter_at_offset s b)) (cells s) @
     drop (max (get_iter_at_offset s a) (get_iter_at_offset s b)) (cells s)"

definition added_cells :: "note_buffer \<Rightarrow> int \<Rightarrow> content list \<Rightarrow> cell list" where
  "added_cells s a new =
     take (get_iter_at_offset s a) (cells s) @
     map (\<lambda>c. (c, tags_before s (get_iter_at_offset s a) \<inter> tags_at s (get_iter_at_offset s a))) new @
     drop (get_iter_at_offset s a) (cells s)"

definition retagged_cells :: "note_buffer \<Rightarrow> ustring \<Rightarrow> int \<Rightarrow> int \<Rightarrow> bool \<Rightarrow> cell list" where
  "retagged_cells s n a b tagged =
     (if Named n \<in> set (tag_table s)
      then map (\<lambda>k. if min (get_iter_at_offset s a) (get_iter_at_offset s b) \<le> k \<and>
                       k < max (get_iter_at_offset s a) (get_iter_at_offset s b)
                    then (fst (cells s ! k),
                          if tagged then insert (Named n) (snd (cells s ! k))
                          else snd (cells s ! k) - {Named n})
                    else cells s ! k)
             [0 ..< length (cells s)]
      else cells s)"

section \<open>Sequences of calls\<close>

text \<open>
  The calls a user of the buffer makes, one after the other; a sequence stops at the first
  call that raises.
\<close>

datatype operation =
    Insert nat ustring
  | Type nat ustring
  | TagSelection ustring
  | ToggleChecklist
  | ToggleBullets
  | Undo
  | Redo

fun perform ::
  "(ustring \<Rightarrow> int option) \<Rightarrow> operation \<Rightarrow> note_buffer \<Rightarrow> (error + unit) \<times> note_buffer" where
  "perform get_url_start (Insert it txt) s = (Inr (), insert_text get_url_start s it txt)"
| "perform get_url_start (Type it txt) s = (Inr (), user_insert_text get_url_start s it txt)"
| "perform get_url_start (TagSelection tag_name) s = (Inr (), tag_selection s tag_name)"
| "perform get_url_start ToggleChecklist s = toggle_checklist s"
| "perform get_url_start ToggleBullets s = toggle_bullets s"
| "perform get_url_start Undo s = undo s"
| "perform get_url_start Redo s = redo s"

fun run ::
  "(ustring \<Rightarrow> int option) \<Rightarrow> operation list \<Rightarrow> note_buffer \<Rightarrow> (error + unit) \<times> note_buffer" where
  "run get_url_start [] s = (Inr (), s)"
| "run get_url_start (op # ops) s =
     (case perform get_url_start op s of
        (Inl e, s1) \<Rightarrow> (Inl e, s1)
      | (Inr _, s1) \<Rightarrow> run get_url_start ops s1)"

section \<open>Properties\<close>

subsection \<open>Frame lemmas: what the toolkit calls leave alone\<close>

lemma insert_cells_frame [simp]:
  "undo_actions (insert_cells s it new) = undo_actions s"
  "redo_actions (insert_cells s it new) = redo_actions s"
  "composite_actions (insert_cells s it new) = composite_actions s"
  "in_composite (insert_cells s it new) = in_composite s"
  "internal_action_count (insert_cells s it new) = internal_action_count s"
  "content_changed (insert_cells s it new) = content_changed s"
  "idle_sources (insert_cells s it new) = idle_sources s"
  "printed (insert_cells s it new) = printed s"
  "tag_table (insert_cells s it new) = tag_table s"
  by (simp_all add: insert_cells_def Let_def)

lemma delete_range_default_frame [simp]:
  "undo_actions (delete_range_default s a b) = undo_actions s"
  "redo_actions (delete_range_default s a b) = redo_actions s"
  "composite_actions (delete_range_default s a b) = composite_actions s"
  "in_composite (delete_range_default s a b) = in_composite s"
  "internal_action_count (delete_range_default s a b) = internal_action_count s"
  "content_changed (delete_range_default s a b) = content_changed s"
  "idle_sources (delete_range_default s a b) = idle_sources s"
  "printed (delete_range_default s a b) = printed s"
  "tag_table (delete_range_default s a b) = tag_table s"
  by (simp_all add: delete_range_default_def Let_def)

lemma apply_tag_by_name_frame [simp]:
  "undo_actions (apply_tag_by_name s n a b) = undo_actions s"
  "redo_actions (apply_tag_by_name s n a b) = redo_actions s"
  "composite_actions (apply_tag_by_name s n a b) = composite_actions s"
  "in_composite (apply_tag_by_name s n a b) = in_composite s"
  "internal_action_count (apply_tag_by_name s n a b) = internal_action_count s"
  "content_changed (apply_tag_by_name s n a b) = content_changed s"
  "idle_sources (apply_tag_by_name s n a b) = idle_sources s"
  "printed (apply_tag_by_name s n a b) = printed s"
  "tag_table (apply_tag_by_name s n a b) = tag_table s"
  by (simp_all add: apply_tag_by_name_def)

lemma remove_tag_by_name_frame [simp]:
  "undo_actions (remove_tag_by_name s n a b) = undo_actions s"
  "redo_actions (remove_tag_by_name s n a b) = redo_actions s"
  "composite_actions (remove_tag_by_name s n a b) = composite_actions s"
  "in_composite (remove_tag_by_name s n a b) = in_composite s"
  "internal_action_count (remove_tag_by_name s n a b) = internal_action_count s"
  "content_changed (remove_tag_by_name s n a b) = content_changed s"
  "idle_sources (remove_tag_by_name s n a b) = idle_sources s"
  "printed (remove_tag_by_name s n a b) = printed s"
  "tag_table (remove_tag_by_name s n a b) = tag_table s"
  by (simp_all add: remove_tag_by_name_def)

lemma insert_text_default_frame [simp]:
  "undo_actions (insert_text_default s it t) = undo_actions s"
  "redo_actions (insert_text_default s it t) = redo_actions s"
  "composite_actions (insert_text_default s it t) = composite_actions s"
  "in_composite (insert_text_default s it t) = in_composite s"
  "internal_action_count (insert_text_default s it t) = internal_action_count s"
  "content_changed (insert_text_default s it t) = content_changed s"
  "idle_sources (insert_text_default s it t) = idle_sources s"
  "printed (insert_text_default s it t) = printed s"
  "tag_table (insert_text_default s it t) = tag_table s"
  "length (cells (insert_text_default s it t)) = length (cells s) + length t"
  by (simp_all add: insert_text_default_def insert_cells_def Let_def)

lemma create_child_anchor_frame [simp]:
  "undo_actions (create_child_anchor s it w) = undo_actions s"
  "redo_actions (create_child_anchor s it w) = redo_actions s"
  "composite_actions (create_child_anchor s it w) = composite_actions s"
  "in_composite (create_child_anchor s it w) = in_composite s"
  "internal_action_count (create_child_anchor s it w) = internal_action_count s"
  "content_changed (create_child_anchor s it w) = content_changed s"
  "idle_sources (create_child_anchor s it w) = idle_sources s"
  "printed (create_child_anchor s it w) = printed s"
  "tag_table (create_child_anchor s it w) = tag_table s"
  by (simp_all add: create_child_anchor_def)

lemma TextBuffer_insert_frame [simp]:
  "undo_actions (TextBuffer_insert s it t) = undo_actions s"
  "redo_actions (TextBuffer_insert s it t) = redo_actions s"
  "composite_actions (TextBuffer_insert s it t) = composite_actions s"
  "in_composite (TextBuffer_insert s it t) = in_composite s"
  "internal_action_count (TextBuffer_insert s it t) = internal_action_count s"
  "content_changed (TextBuffer_insert s it t) = content_changed s"
  "idle_sources (TextBuffer_insert s it t) = idle_sources s"
  "printed (TextBuffer_insert s it t) = printed s"
  "tag_table (TextBuffer_insert s it t) = tag_table s"
  by (simp_all add: TextBuffer_insert_def)

lemma TextBuffer_delete_frame [simp]:
  "undo_actions (TextBuffer_delete s a b) = undo_actions s"
  "redo_actions (TextBuffer_delete s a b) = redo_actions s"
  "composite_actions (TextBuffer_delete s a b) = composite_actions s"
  "in_composite (TextBuffer_delete s a b) = in_composite s"
  "internal_action_count (TextBuffer_delete s a b) = internal_action_count s"
  "content_changed (TextBuffer_delete s a b) = content_changed s"
  "idle_sources (TextBuffer_delete s a b) = idle_sources s"
  "printed (TextBuffer_delete s a b) = printed s"
  "tag_table (TextBuffer_delete s a b) = tag_table s"
  by (simp_all add: TextBuffer_delete_def)

lemma enter_frame [simp]:
  "cells (InternalActionHandler_enter s) = cells s"
  "undo_actions (InternalActionHandler_enter s) = undo_actions s"
  "redo_actions (InternalActionHandler_enter s) = redo_actions s"
  "composite_actions (InternalActionHandler_enter s) = composite_actions s"
  "in_composite (InternalActionHandler_enter s) = in_composite s"
  "internal_action_count (InternalActionHandler_enter s) = internal_action_count s + 1"
  "content_changed (InternalActionHandler_enter s) = content_changed s"
  "idle_sources (InternalActionHandler_enter s) = idle_sources s"
  "printed (InternalActionHandler_enter s) = printed s"
  "tag_table (InternalActionHandler_enter s) = tag_table s"
  by (simp_all add: InternalActionHandler_enter_def)

lemma exit_frame [simp]:
  "cells (InternalActionHandler_exit t s) = cells s"
  "undo_actions (InternalActionHandler_exit t s) = undo_actions s"
  "redo_actions (InternalActionHandler_exit t s) = redo_actions s"
  "composite_actions (InternalActionHandler_exit t s) = composite_actions s"
  "in_composite (InternalActionHandler_exit t s) = in_composite s"
  "internal_action_count (InternalActionHandler_exit t s) = internal_action_count s - 1"
  "content_changed (InternalActionHandler_exit t s) = content_changed s"
  "printed (InternalActionHandler_exit t s) = printed s"
  "tag_table (InternalActionHandler_exit t s) = tag_table s"
  by (simp_all add: InternalActionHandler_exit_def Let_def)


lemma add_check_button_frame [simp]:
  "undo_actions (snd (add_check_button s it c)) = undo_actions s"
  "redo_actions (snd (add_check_button s it c)) = redo_actions s"
  "composite_actions (snd (add_check_button s it c)) = composite_actions s"
  "in_composite (snd (add_check_button s it c)) = in_composite s"
  "internal_action_count (snd (add_check_button s it c)) = internal_action_count s"
  "content_changed (snd (add_check_button s it c)) = content_changed s"
  "printed (snd (add_check_button s it c)) = printed s"
  "tag_table (snd (add_check_button s it c)) = tag_table s"
  by (simp_all add: add_check_button_def internal_action_def Let_def)

lemma add_bullet_frame [simp]:
  "undo_actions (snd (add_bullet s it)) = undo_actions s"
  "redo_actions (snd (add_bullet s it)) = redo_actions s"
  "composite_actions (snd (add_bullet s it)) = composite_actions s"
  "in_composite (snd (add_bullet s it)) = in_composite s"
  "internal_action_count (snd (add_bullet s it)) = internal_action_count s"
  "content_changed (snd (add_bullet s it)) = content_changed s"
  "printed (snd (add_bullet s it)) = printed s"
  "tag_table (snd (add_bullet s it)) = tag_table s"
  by (simp_all add: add_bullet_def internal_action_def Let_def)


lemma add_tag_frame [simp]:
  "undo_actions (snd (add_tag s n a b)) = undo_actions s"
  "redo_actions (snd (add_tag s n a b)) = redo_actions s"
  "composite_actions (snd (add_tag s n a b)) = composite_actions s"
  "in_composite (snd (add_tag s n a b)) = in_composite s"
  "internal_action_count (snd (add_tag s n a b)) = internal_action_count s"
  "idle_sources (snd (add_tag s n a b)) = idle_sources s"
  "fst (add_tag s n a b) = TagAction n (int a) (int b) True"
  by (simp_all add: add_tag_def trigger_changed_def Let_def)

subsection \<open>Replaying an action touches neither stack\<close>

lemma ObjectInsertAction_remove_frame [simp]:
  "undo_actions (snd (ObjectInsertAction_remove at p c s)) = undo_actions s"
  "redo_actions (snd (ObjectInsertAction_remove at p c s)) = redo_actions s"
  "composite_actions (snd (ObjectInsertAction_remove at p c s)) = composite_actions s"
  "in_composite (snd (ObjectInsertAction_remove at p c s)) = in_composite s"
  "internal_action_count (snd (ObjectInsertAction_remove at p c s)) = internal_action_count s"
  "content_changed (snd (ObjectInsertAction_remove at p c s)) = content_changed s"
  "idle_sources (snd (ObjectInsertAction_remove at p c s)) = idle_sources s"
  "printed (snd (ObjectInsertAction_remove at p c s)) = printed s"
  "tag_table (snd (ObjectInsertAction_remove at p c s)) = tag_table s"
  by (simp_all add: ObjectInsertAction_remove_def Let_def split: option.splits widget.splits)

lemma ObjectInsertAction_add_frame [simp]:
  "undo_actions (snd (ObjectInsertAction_add at p c s)) = undo_actions s"
  "redo_actions (snd (ObjectInsertAction_add at p c s)) = redo_actions s"
  "composite_actions (snd (ObjectInsertAction_add at p c s)) = composite_actions s"
  "in_composite (snd (ObjectInsertAction_add at p c s)) = in_composite s"
  "internal_action_count (snd (ObjectInsertAction_add at p c s)) = internal_action_count s"
  "content_changed (snd (ObjectInsertAction_add at p c s)) = content_changed s"
  "printed (snd (ObjectInsertAction_add at p c s)) = printed s"
  "tag_table (snd (ObjectInsertAction_add at p c s)) = tag_table s"
  by (simp_all add: ObjectInsertAction_add_def split: anchor_type.splits option.splits)


lemma simple_replay_frame [simp]:
  "undo_actions (AdditionAction_undo t p s) = undo_actions s"
  "redo_actions (AdditionAction_undo t p s) = redo_actions s"
  "composite_actions (AdditionAction_undo t p s) = composite_actions s"
  "in_composite (AdditionAction_undo t p s) = in_composite s"
  "internal_action_count (AdditionAction_undo t p s) = internal_action_count s"
  "content_changed (AdditionAction_undo t p s) = content_changed s"
  "idle_sources (AdditionAction_undo t p s) = idle_sources s"
  "undo_actions (AdditionAction_redo t p s) = undo_actions s"
  "redo_actions (AdditionAction_redo t p s) = redo_actions s"
  "composite_actions (AdditionAction_redo t p s) = composite_actions s"
  "in_composite (AdditionAction_redo t p s) = in_composite s"
  "internal_action_count (AdditionAction_redo t p s) = internal_action_count s"
  "content_changed (AdditionAction_redo t p s) = content_changed s"
  "idle_sources (AdditionAction_redo t p s) = idle_sources s"
  "undo_actions (DeletionAction_undo t p s) = undo_actions s"
  "redo_actions (DeletionAction_undo t p s) = redo_actions s"
  "composite_actions (DeletionAction_undo t p s) = composite_actions s"
  "in_composite (DeletionAction_undo t p s) = in_composite s"
  "internal_action_count (DeletionAction_undo t p s) = internal_action_count s"
  "content_changed (DeletionAction_undo t p s) = content_changed s"
  "idle_sources (DeletionAction_undo t p s) = idle_sources s"
  "undo_actions (DeletionAction_redo t p s) = undo_actions s"
  "redo_actions (DeletionAction_redo t p s) = redo_actions s"
  "composite_actions (DeletionAction_redo t p s) = composite_actions s"
  "in_composite (DeletionAction_redo t p s) = in_composite s"
  "internal_action_count (DeletionAction_redo t p s) = internal_action_count s"
  "content_changed (DeletionAction_redo t p s) = content_changed s"
  "idle_sources (DeletionAction_redo t p s) = idle_sources s"
  "undo_actions (TagAction_add n a b s) = undo_actions s"
  "redo_actions (TagAction_add n a b s) = redo_actions s"
  "composite_actions (TagAction_add n a b s) = composite_actions s"
  "in_composite (TagAction_add n a b s) = in_composite s"
  "internal_action_count (TagAction_add n a b s) = internal_action_count s"
  "content_changed (TagAction_add n a b s) = content_changed s"
  "idle_sources (TagAction_add n a b s) = idle_sources s"
  "undo_actions (TagAction_remove n a b s) = undo_actions s"
  "redo_actions (TagAction_remove n a b s) = redo_actions s"
  "composite_actions (TagAction_remove n a b s) = composite_actions s"
  "in_composite (TagAction_remove n a b s) = in_composite s"
  "internal_action_count (TagAction_remove n a b s) = internal_action_count s"
  "content_changed (TagAction_remove n a b s) = content_changed s"
  "idle_sources (TagAction_remove n a b s) = idle_sources s"
  by (simp_all add: AdditionAction_undo_def AdditionAction_redo_def DeletionAction_undo_def
      DeletionAction_redo_def TagAction_add_def TagAction_remove_def)

lemma action_undo_frame:
  "undo_actions (snd (action_undo a s)) = undo_actions s \<and>
   redo_actions (snd (action_undo a s)) = redo_actions s \<and>
   composite_actions (snd (action_undo a s)) = composite_actions s \<and>
   in_composite (snd (action_undo a s)) = in_composite s \<and>
   internal_action_count (snd (action_undo a s)) = internal_action_count s \<and>
   content_changed (snd (action_undo a s)) = content_changed s"
  and undo_reversed_frame:
  "undo_actions (snd (undo_reversed as s)) = undo_actions s \<and>
   redo_actions (snd (undo_reversed as s)) = redo_actions s \<and>
   composite_actions (snd (undo_reversed as s)) = composite_actions s \<and>
   in_composite (snd (undo_reversed as s)) = in_composite s \<and>
   internal_action_count (snd (undo_reversed as s)) = internal_action_count s \<and>
   content_changed (snd (undo_reversed as s)) = content_changed s"
proof (induction a s and as s rule: action_undo_undo_reversed.induct)
  case (3 is_addition at position checked s)
  then show ?case
    by (cases is_addition) (simp_all split: prod.splits sum.splits,
        (metis ObjectInsertAction_remove_frame ObjectInsertAction_add_frame snd_conv)+)
next
  case (5 child_actions s)
  then show ?case by (auto split: prod.splits sum.splits)
next
  case (7 a later s)
  then show ?case by (auto split: prod.splits sum.splits)
qed simp_all

lemma action_redo_frame:
  "undo_actions (snd (action_redo a s)) = undo_actions s \<and>
   redo_actions (snd (action_redo a s)) = redo_actions s \<and>
   composite_actions (snd (action_redo a s)) = composite_actions s \<and>
   in_composite (snd (action_redo a s)) = in_composite s \<and>
   internal_action_count (snd (action_redo a s)) = internal_action_count s \<and>
   content_changed (snd (action_redo a s)) = content_changed s"
  and redo_in_order_frame:
  "undo_actions (snd (redo_in_order as s)) = undo_actions s \<and>
   redo_actions (snd (redo_in_order as s)) = redo_actions s \<and>
   composite_actions (snd (redo_in_order as s)) = composite_actions s \<and>
   in_composite (snd (redo_in_order as s)) = in_composite s \<and>
   internal_action_count (snd (redo_in_order as s)) = internal_action_count s \<and>
   content_changed (snd (redo_in_order as s)) = content_changed s"
proof (induction a s and as s rule: action_redo_redo_in_order.induct)
  case (3 is_addition at position checked s)
  then show ?case
    by (cases is_addition) (simp_all split: prod.splits sum.splits,
        (metis ObjectInsertAction_remove_frame ObjectInsertAction_add_frame snd_conv)+)
next
  case (5 child_actions s)
  then show ?case by (auto split: prod.splits sum.splits)
next
  case (7 a later s)
  then show ?case by (auto split: prod.splits sum.splits)
qed simp_all



lemma undo_nonempty:
  assumes "undo_actions s = us @ [act]"
  shows "undo s =
     (case action_undo act (InternalActionHandler_enter s\<lparr>undo_actions := us\<rparr>) of
        (Inl e, s2) \<Rightarrow> (Inl e, InternalActionHandler_exit True s2)
      | (Inr act', s2) \<Rightarrow>
          (Inr (), InternalActionHandler_exit True (s2\<lparr>redo_actions := redo_actions s2 @ [act']\<rparr>)))"
  using assms by (simp add: undo_def internal_action_def Let_def split: prod.splits sum.splits)

lemma redo_nonempty:
  assumes "redo_actions s = rs @ [act]"
  shows "redo s =
     (case action_redo act (InternalActionHandler_enter s\<lparr>redo_actions := rs\<rparr>) of
        (Inl e, s2) \<Rightarrow> (Inl e, InternalActionHandler_exit True s2)
      | (Inr act', s2) \<Rightarrow>
          (Inr (), InternalActionHandler_exit True (s2\<lparr>undo_actions := undo_actions s2 @ [act']\<rparr>)))"
  using assms by (simp add: redo_def internal_action_def Let_def split: prod.splits sum.splits)

lemma undo_stacks:
  assumes "undo_actions s \<noteq> []"
  shows "undo_actions (snd (undo s)) = butlast (undo_actions s)"
    and "length (redo_actions (snd (undo s))) \<le> length (redo_actions s) + 1"
    and "internal_action_count (snd (undo s)) = internal_action_count s"
    and "content_changed (snd (undo s)) = content_changed s"
    and "in_composite (snd (undo s)) = in_composite s"
    and "composite_actions (snd (undo s)) = composite_actions s"
proof -
  obtain us a where ua: "undo_actions s = us @ [a]"
    using assms by (metis append_butlast_last_id)
  let ?s0 = "InternalActionHandler_enter s\<lparr>undo_actions := us\<rparr>"
  obtain r s2 where au: "action_undo a ?s0 = (r, s2)" by (metis surj_pair)
  have f: "undo_actions s2 = us" "redo_actions s2 = redo_actions s"
    "internal_action_count s2 = internal_action_count s + 1"
    "content_changed s2 = content_changed s" "in_composite s2 = in_composite s"
    "composite_actions s2 = composite_actions s"
    using au action_undo_frame [of a ?s0] by simp_all
  show "undo_actions (snd (undo s)) = butlast (undo_actions s)"
    "length (redo_actions (snd (undo s))) \<le> length (redo_actions s) + 1"
    "internal_action_count (snd (undo s)) = internal_action_count s"
    "content_changed (snd (undo s)) = content_changed s"
    "in_composite (snd (undo s)) = in_composite s"
    "composite_actions (snd (undo s)) = composite_actions s"
    using f ua au by (cases r; simp add: undo_nonempty)+
qed

lemma redo_stacks:
  assumes "redo_actions s \<noteq> []"
  shows "redo_actions (snd (redo s)) = butlast (redo_actions s)"
    and "length (undo_actions (snd (redo s))) \<le> length (undo_actions s) + 1"
    and "internal_action_count (snd (redo s)) = internal_action_count s"
    and "content_changed (snd (redo s)) = content_changed s"
    and "in_composite (snd (redo s)) = in_composite s"
    and "composite_actions (snd (redo s)) = composite_actions s"
proof -
  obtain rs a where ra: "redo_actions s = rs @ [a]"
    using assms by (metis append_butlast_last_id)
  let ?s0 = "InternalActionHandler_enter s\<lparr>redo_actions := rs\<rparr>"
  obtain r s2 where ar: "action_redo a ?s0 = (r, s2)" by (metis surj_pair)
  have f: "redo_actions s2 = rs" "undo_actions s2 = undo_actions s"
    "internal_action_count s2 = internal_action_count s + 1"
    "content_changed s2 = content_changed s" "in_composite s2 = in_composite s"
    "composite_actions s2 = composite_actions s"
    using ar action_redo_frame [of a ?s0] by simp_all
  show "redo_actions (snd (redo s)) = butlast (redo_actions s)"
    "length (undo_actions (snd (redo s))) \<le> length (undo_actions s) + 1"
    "internal_action_count (snd (redo s)) = internal_action_count s"
    "content_changed (snd (redo s)) = content_changed s"
    "in_composite (snd (redo s)) = in_composite s"
    "composite_actions (snd (redo s)) = composite_actions s"
    using f ra ar by (cases r; simp add: redo_nonempty)+
qed

subsection \<open>Recording an insertion\<close>

lemma maybe_join_unchanged: "\<not> fst (maybe_join a b) \<Longrightarrow> snd (maybe_join a b) = a"
  by (cases a; cases b) (auto simp: GenericAction_maybe_join_def split: if_splits)

lemma add_undo_action_frame [simp]:
  "cells (add_undo_action s a) = cells s"
  "in_composite (add_undo_action s a) = in_composite s"
  "internal_action_count (add_undo_action s a) = internal_action_count s"
  "content_changed (add_undo_action s a) = content_changed s"
  "idle_sources (add_undo_action s a) = idle_sources s"
  by (simp_all add: add_undo_action_def)

lemma add_undo_action_stacks:
  "undo_actions (add_undo_action s a) =
     (if in_composite s \<noteq> 0 then undo_actions s else undo_actions s @ [a])"
  "redo_actions (add_undo_action s a) = (if in_composite s \<noteq> 0 then redo_actions s else [])"
  "composite_actions (add_undo_action s a) =
     (if in_composite s \<noteq> 0 then composite_actions s @ [a] else composite_actions s)"
  by (simp_all add: add_undo_action_def)

lemma pushed_or_kept_refl: "pushed_or_kept s s"
  by (simp add: pushed_or_kept_def)

lemma pushed_or_kept_trans:
  "pushed_or_kept s s1 \<Longrightarrow> pushed_or_kept s1 s2 \<Longrightarrow> pushed_or_kept s s2"
  by (auto simp add: pushed_or_kept_def)

lemma pushed_or_kept_add_undo_action: "pushed_or_kept s (add_undo_action s a)"
  by (simp add: pushed_or_kept_def add_undo_action_stacks)

lemma pushed_or_kept_add_tag: "pushed_or_kept s (snd (add_tag s n a b))"
  by (simp add: pushed_or_kept_def)

lemma pushed_or_kept_add_object:
  "pushed_or_kept s (snd (add_check_button s it c))"
  "pushed_or_kept s (snd (add_bullet s it))"
  by (simp_all add: pushed_or_kept_def)

lemma pushed_or_kept_maybe_repeat: "pushed_or_kept s (snd (snd (maybe_repeat s it a)))"
proof (cases "get_child_anchor s (line_start (cells s) it)")
  case None
  then show ?thesis by (simp add: maybe_repeat_def pushed_or_kept_refl)
next
  case (Some w)
  show ?thesis
  proof (cases w)
    case (CheckButton c)
    have "pushed_or_kept s
            (add_undo_action (snd (add_check_button s it False))
               (CompositeAction [a, fst (add_check_button s it False)]))"
      using pushed_or_kept_add_object(1) pushed_or_kept_add_undo_action pushed_or_kept_trans
      by blast
    then show ?thesis using Some CheckButton by (simp add: maybe_repeat_def Let_def split_beta)
  next
    case Image
    have "pushed_or_kept s
            (add_undo_action (snd (add_bullet s it)) (CompositeAction [a, fst (add_bullet s it)]))"
      using pushed_or_kept_add_object(2) pushed_or_kept_add_undo_action pushed_or_kept_trans
      by blast
    then show ?thesis using Some Image by (simp add: maybe_repeat_def Let_def split_beta)
  qed
qed

lemma pushed_or_kept_join:
  "undo_actions s \<noteq> [] \<Longrightarrow> pushed_or_kept s (s\<lparr>undo_actions := butlast (undo_actions s) @ [x]\<rparr>)"
  by (simp add: pushed_or_kept_def)

lemma on_insert_pushed_or_kept: "pushed_or_kept s (snd (on_insert url s loc t))"
proof (cases "internal_action_count s \<noteq> 0")
  case True
  then show ?thesis by (simp add: on_insert_def pushed_or_kept_refl)
next
  case False
  define s0 where "s0 = InternalActionHandler_enter s"
  define act where "act = AdditionAction t (int loc)"
  define s1 where "s1 = (if t \<in> set separators
                     then (case url (get_slice s0 0 loc) of
                             None \<Rightarrow> s0
                           | Some m \<Rightarrow>
                               (case add_tag s0 (py_str ''link'') (get_iter_at_offset s0 m) loc of
                                  (tag_act, s') \<Rightarrow> add_undo_action s' tag_act))
                     else s0)"
  obtain compound loc' s2 where
    r: "(if t = [10] then maybe_repeat s1 loc act else (False, loc, s1)) = (compound, loc', s2)"
    by (metis prod_cases3)
  obtain joined top_action where j: "maybe_join (last (undo_actions s2)) act = (joined, top_action)"
    by (metis surj_pair)
  define s3 where "s3 = (if compound then s2
                     else if length (undo_actions s2) = 0 then add_undo_action s2 act
                     else if joined then s2\<lparr>undo_actions := butlast (undo_actions s2) @ [top_action]\<rparr>
                     else add_undo_action (s2\<lparr>undo_actions := butlast (undo_actions s2) @ [top_action]\<rparr>) act)"
  have eq: "snd (on_insert url s loc t) = InternalActionHandler_exit True s3"
    using False r [unfolded s1_def act_def s0_def] j [unfolded act_def]
    by (simp add: on_insert_def internal_action_def Let_def s3_def act_def)
  have p01: "pushed_or_kept s0 s1"
  proof (cases "t \<in> set separators")
    case False
    then show ?thesis by (simp add: s1_def pushed_or_kept_refl)
  next
    case sep: True
    show ?thesis
    proof (cases "url (get_slice s0 0 loc)")
      case None
      then show ?thesis using sep by (simp add: s1_def pushed_or_kept_refl)
    next
      case (Some m)
      have "pushed_or_kept s0
              (add_undo_action (snd (add_tag s0 (py_str ''link'') (get_iter_at_offset s0 m) loc))
                 (fst (add_tag s0 (py_str ''link'') (get_iter_at_offset s0 m) loc)))"
        using pushed_or_kept_add_tag pushed_or_kept_add_undo_action pushed_or_kept_trans by blast
      then show ?thesis using sep Some unfolding s1_def by (simp add: split_beta)
    qed
  qed
  have p12: "pushed_or_kept s1 s2"
    using r pushed_or_kept_maybe_repeat [of s1 loc act]
    by (auto simp add: pushed_or_kept_refl split: if_splits)
  have p23: "pushed_or_kept s2 s3"
    unfolding s3_def
    using pushed_or_kept_add_undo_action pushed_or_kept_join [of s2 top_action]
      pushed_or_kept_trans
    by (auto simp add: pushed_or_kept_refl)
  have "pushed_or_kept s0 s3"
    using p01 p12 p23 pushed_or_kept_trans by blast
  then show ?thesis
    unfolding eq by (simp add: pushed_or_kept_def s0_def)
qed

lemma on_insert_push:
  assumes "internal_action_count s = 0" and "in_composite s = 0" and "t \<notin> set separators"
    and "undo_actions s = [] \<or> \<not> fst (maybe_join (last (undo_actions s)) (AdditionAction t (int p)))"
  shows "on_insert url s p t =
           (p, s\<lparr>undo_actions := undo_actions s @ [AdditionAction t (int p)],
                 redo_actions := [], idle_sources := idle_sources s + 1\<rparr>)"
proof -
  have nl: "t \<noteq> [10]" using assms(3) by (auto simp: separators_def)
  show ?thesis
  proof (cases "undo_actions s = []")
    case True
    then show ?thesis using assms(1,2,3) nl
      by (simp add: on_insert_def internal_action_def InternalActionHandler_enter_def
          InternalActionHandler_exit_def add_undo_action_def Let_def)
  next
    case False
    with assms(4) have nj: "\<not> fst (maybe_join (last (undo_actions s)) (AdditionAction t (int p)))"
      by simp
    have keep: "snd (maybe_join (last (undo_actions s)) (AdditionAction t (int p))) = last (undo_actions s)"
      using nj by (rule maybe_join_unchanged)
    show ?thesis using assms(1,2,3) nl False nj keep
      by (simp add: on_insert_def internal_action_def InternalActionHandler_enter_def
          InternalActionHandler_exit_def add_undo_action_def Let_def split_beta)
  qed
qed

lemma on_insert_join:
  assumes "internal_action_count s = 0" and "t \<notin> set separators"
    and "undo_actions s \<noteq> []"
    and "fst (maybe_join (last (undo_actions s)) (AdditionAction t (int p)))"
  shows "on_insert url s p t =
           (p, s\<lparr>undo_actions := butlast (undo_actions s) @
                     [snd (maybe_join (last (undo_actions s)) (AdditionAction t (int p)))],
                 idle_sources := idle_sources s + 1\<rparr>)"
proof -
  have nl: "t \<noteq> [10]" using assms(2) by (auto simp: separators_def)
  show ?thesis using assms nl
    by (simp add: on_insert_def internal_action_def InternalActionHandler_enter_def
          InternalActionHandler_exit_def add_undo_action_def Let_def split_beta)
qed

lemma insert_text_push:
  assumes "internal_action_count s = 0" and "in_composite s = 0" and "t \<notin> set separators"
    and "t \<noteq> []"
    and "undo_actions s = [] \<or> \<not> fst (maybe_join (last (undo_actions s)) (AdditionAction t (int p)))"
  shows "insert_text url s p t =
           insert_text_default
             (s\<lparr>undo_actions := undo_actions s @ [AdditionAction t (int p)],
                redo_actions := [], idle_sources := idle_sources s + 1\<rparr>) p t"
  using assms(4) on_insert_push [OF assms(1,2,3,5), of url] by (simp add: insert_text_def)

lemma insert_text_join:
  assumes "internal_action_count s = 0" and "t \<notin> set separators" and "t \<noteq> []"
    and "undo_actions s \<noteq> []"
    and "fst (maybe_join (last (undo_actions s)) (AdditionAction t (int p)))"
  shows "insert_text url s p t =
           insert_text_default
             (s\<lparr>undo_actions := butlast (undo_actions s) @
                     [snd (maybe_join (last (undo_actions s)) (AdditionAction t (int p)))],
                idle_sources := idle_sources s + 1\<rparr>) p t"
  using assms(3) on_insert_join [OF assms(1,2,4,5), of url] by (simp add: insert_text_def)

lemma delete_inserted:
  assumes "p \<le> length (cells s)"
  shows "cells (delete_range_default (insert_text_default s p txt) p (p + length txt)) = cells s"
  using assms by (simp add: delete_range_default_def insert_text_default_def insert_cells_def Let_def)

lemma a_not_sep: "py_str ''a'' \<notin> set separators" "py_str ''b'' \<notin> set separators"
  by (simp_all add: separators_def)

lemma AdditionAction_undo_inserted:
  assumes "p \<le> length (cells s0)" and "cells s = cells (insert_text_default s0 p t)"
  shows "cells (AdditionAction_undo t (int p) s) = cells s0"
proof -
  have len: "length (cells s) = length (cells s0) + length t"
    using assms(2) by simp
  have it: "get_iter_at_offset s (int p) = p"
    "get_iter_at_offset s (int p + int (length t)) = p + length t"
    using assms(1) len by (simp_all add: get_iter_at_offset_def get_char_count_def)
  have "cells (delete_range_default s p (p + length t)) =
          cells (delete_range_default (insert_text_default s0 p t) p (p + length t))"
    using assms(2) by (simp add: delete_range_default_def Let_def)
  then show "cells (AdditionAction_undo t (int p) s) = cells s0"
    using delete_inserted [OF assms(1), of t] assms
    by (auto simp add: AdditionAction_undo_def TextBuffer_delete_def it
        insert_text_default_def insert_cells_def)
qed

lemma typing_two_characters:
  assumes c0: "internal_action_count s = 0" and ic: "in_composite s = 0"
    and p: "p \<le> length (cells s)"
    and c: "[c] \<notin> set separators" and d: "[d] \<notin> set separators"
    and top: "undo_actions s = [] \<or>
              \<not> fst (maybe_join (last (undo_actions s)) (AdditionAction [c] (int p)))"
  shows "undo_actions (insert_text url (insert_text url s p [c]) (Suc p) [d]) =
           undo_actions s @ [AdditionAction [c, d] (int p)]"
    and "fst (undo (insert_text url (insert_text url s p [c]) (Suc p) [d])) = Inr ()"
    and "cells (snd (undo (insert_text url (insert_text url s p [c]) (Suc p) [d]))) = cells s"
    and "undo_actions (snd (undo (insert_text url (insert_text url s p [c]) (Suc p) [d]))) =
           undo_actions s"
    and "q \<noteq> Suc p \<Longrightarrow>
         undo_actions (insert_text url (insert_text url s p [c]) q [d]) =
           undo_actions s @ [AdditionAction [c] (int p), AdditionAction [d] (int q)]"
proof -
  let ?s1 = "insert_text url s p [c]"
  let ?s2 = "insert_text url ?s1 (Suc p) [d]"
  have s1: "?s1 = insert_text_default
             (s\<lparr>undo_actions := undo_actions s @ [AdditionAction [c] (int p)],
                redo_actions := [], idle_sources := idle_sources s + 1\<rparr>) p [c]"
    using insert_text_push [OF c0 ic c _ top] by simp
  have c1: "internal_action_count ?s1 = 0" "in_composite ?s1 = 0"
    "undo_actions ?s1 = undo_actions s @ [AdditionAction [c] (int p)]"
    unfolding s1 using c0 ic by simp_all
  have s2: "?s2 = insert_text_default
             (?s1\<lparr>undo_actions := undo_actions s @ [AdditionAction [c, d] (int p)],
                  idle_sources := idle_sources ?s1 + 1\<rparr>) (Suc p) [d]"
    using insert_text_join [of ?s1 "[d]" "Suc p" url] c1 d by simp
  show u2: "undo_actions ?s2 = undo_actions s @ [AdditionAction [c, d] (int p)]"
    by (subst s2) simp
  have cells2: "cells ?s2 = cells (insert_text_default s p [c, d])"
    unfolding s2 unfolding s1 using p
    by (auto simp add: insert_text_default_def insert_cells_def Let_def tags_at_def
        tags_before_def get_char_count_def nth_append)
  have un: "undo ?s2 = (Inr (), InternalActionHandler_exit True
     ((AdditionAction_undo [c, d] (int p) (InternalActionHandler_enter ?s2\<lparr>undo_actions := undo_actions s\<rparr>))
       \<lparr>redo_actions := redo_actions (AdditionAction_undo [c, d] (int p) (InternalActionHandler_enter ?s2\<lparr>undo_actions := undo_actions s\<rparr>)) @ [AdditionAction [c, d] (int p)]\<rparr>))"
    by (subst undo_nonempty [OF u2]) simp
  show "fst (undo ?s2) = Inr ()"
    by (subst un) simp
  show "cells (snd (undo ?s2)) = cells s"
    by (subst un) (simp add: AdditionAction_undo_inserted [OF p] cells2)
  show "undo_actions (snd (undo ?s2)) = undo_actions s"
    by (subst un) simp
  show "undo_actions (insert_text url ?s1 q [d]) =
           undo_actions s @ [AdditionAction [c] (int p), AdditionAction [d] (int q)]"
    if "q \<noteq> Suc p"
    using insert_text_push [of ?s1 "[d]" q url] c1 d that by simp
qed

lemma insert_text_suppressed:
  "internal_action_count s \<noteq> 0 \<Longrightarrow> insert_text url s it t = TextBuffer_insert s it t"
  by (simp add: insert_text_def on_insert_def TextBuffer_insert_def)

lemma on_insert_captured:
  assumes "internal_action_count s = 0" and "in_composite s \<noteq> 0" and "t \<notin> set separators"
    and "undo_actions s = [] \<or> \<not> fst (maybe_join (last (undo_actions s)) (AdditionAction t (int p)))"
  shows "on_insert url s p t =
           (p, s\<lparr>composite_actions := composite_actions s @ [AdditionAction t (int p)],
                 idle_sources := idle_sources s + 1\<rparr>)"
proof -
  have nl: "t \<noteq> [10]" using assms(3) by (auto simp: separators_def)
  show ?thesis
  proof (cases "undo_actions s = []")
    case True
    then show ?thesis using assms(1,2,3) nl
      by (simp add: on_insert_def internal_action_def InternalActionHandler_enter_def
          InternalActionHandler_exit_def add_undo_action_def Let_def)
  next
    case False
    with assms(4) have nj: "\<not> fst (maybe_join (last (undo_actions s)) (AdditionAction t (int p)))"
      by simp
    have keep: "snd (maybe_join (last (undo_actions s)) (AdditionAction t (int p))) = last (undo_actions s)"
      using nj by (rule maybe_join_unchanged)
    show ?thesis using assms(1,2,3) nl False nj keep
      by (simp add: on_insert_def internal_action_def InternalActionHandler_enter_def
          InternalActionHandler_exit_def add_undo_action_def Let_def split_beta)
  qed
qed

lemma user_insert_text_push:
  assumes "internal_action_count s = 0" and "in_composite s = 0" and "composite_actions s = []"
    and "t \<notin> set separators" and "t \<noteq> []"
    and "undo_actions s = [] \<or> \<not> fst (maybe_join (last (undo_actions s)) (AdditionAction t (int p)))"
  shows "user_insert_text url s p t =
           insert_text_default
             (s\<lparr>undo_actions := undo_actions s @ [AdditionAction t (int p)],
                redo_actions := [], idle_sources := idle_sources s + 1\<rparr>) p t"
proof -
  let ?b = "begin_composite_action s"
  have b: "internal_action_count ?b = 0" "in_composite ?b \<noteq> 0" "undo_actions ?b = undo_actions s"
    using assms(1,2) by (simp_all add: begin_composite_action_def)
  have "on_insert url ?b p t =
           (p, ?b\<lparr>composite_actions := composite_actions ?b @ [AdditionAction t (int p)],
                 idle_sources := idle_sources ?b + 1\<rparr>)"
    using on_insert_captured [where s = ?b and t = t and p = p and url = url] b assms(4,6) by simp
  then show ?thesis
    using assms(2,3,5)
    by (simp add: user_insert_text_def insert_text_def end_composite_action_def
        begin_composite_action_def add_undo_action_def Let_def insert_text_default_def
        insert_cells_def tags_at_def tags_before_def get_char_count_def)
qed

lemma user_insert_text_join:
  assumes "internal_action_count s = 0" and "in_composite s = 0" and "composite_actions s = []"
    and "t \<notin> set separators" and "t \<noteq> []"
    and "undo_actions s \<noteq> []"
    and "fst (maybe_join (last (undo_actions s)) (AdditionAction t (int p)))"
  shows "user_insert_text url s p t =
           insert_text_default
             (s\<lparr>undo_actions := butlast (undo_actions s) @
                     [snd (maybe_join (last (undo_actions s)) (AdditionAction t (int p)))],
                idle_sources := idle_sources s + 1\<rparr>) p t"
proof -
  let ?b = "begin_composite_action s"
  have b: "internal_action_count ?b = 0" "undo_actions ?b = undo_actions s"
    using assms(1) by (simp_all add: begin_composite_action_def)
  have "on_insert url ?b p t =
           (p, ?b\<lparr>undo_actions := butlast (undo_actions ?b) @
                     [snd (maybe_join (last (undo_actions ?b)) (AdditionAction t (int p)))],
                 idle_sources := idle_sources ?b + 1\<rparr>)"
    using on_insert_join [where s = ?b and t = t and p = p and url = url] b assms(4,6,7) by simp
  then show ?thesis
    using assms(2,3,5) b
    by (simp add: user_insert_text_def insert_text_def end_composite_action_def
        begin_composite_action_def Let_def insert_text_default_def
        insert_cells_def tags_at_def tags_before_def get_char_count_def)
qed

lemma user_typing_two_characters:
  assumes c0: "internal_action_count s = 0" and ic: "in_composite s = 0"
    and ca: "composite_actions s = []"
    and c: "[c] \<notin> set separators" and d: "[d] \<notin> set separators"
    and top: "undo_actions s = [] \<or>
              \<not> fst (maybe_join (last (undo_actions s)) (AdditionAction [c] (int p)))"
  shows "user_insert_text url (user_insert_text url s p [c]) (Suc p) [d] =
           insert_text url (insert_text url s p [c]) (Suc p) [d]"
    and "q \<noteq> Suc p \<Longrightarrow>
         user_insert_text url (user_insert_text url s p [c]) q [d] =
           insert_text url (insert_text url s p [c]) q [d]"
proof -
  let ?s1 = "insert_text url s p [c]"
  have s1: "?s1 = insert_text_default
             (s\<lparr>undo_actions := undo_actions s @ [AdditionAction [c] (int p)],
                redo_actions := [], idle_sources := idle_sources s + 1\<rparr>) p [c]"
    using insert_text_push [OF c0 ic c _ top] by simp
  have u1: "user_insert_text url s p [c] = ?s1"
    using user_insert_text_push [OF c0 ic ca c _ top] s1 by simp
  have c1: "internal_action_count ?s1 = 0" "in_composite ?s1 = 0" "composite_actions ?s1 = []"
    "undo_actions ?s1 = undo_actions s @ [AdditionAction [c] (int p)]"
    unfolding s1 using c0 ic ca by simp_all
  show "user_insert_text url (user_insert_text url s p [c]) (Suc p) [d] =
           insert_text url ?s1 (Suc p) [d]"
    unfolding u1
    using insert_text_join [where s = ?s1 and t = "[d]" and p = "Suc p" and url = url] user_insert_text_join [where s = ?s1 and t = "[d]" and p = "Suc p" and url = url]
      c1 d by simp
  show "user_insert_text url (user_insert_text url s p [c]) q [d] = insert_text url ?s1 q [d]"
    if "q \<noteq> Suc p"
    unfolding u1
    using insert_text_push [where s = ?s1 and t = "[d]" and p = q and url = url] user_insert_text_push [where s = ?s1 and t = "[d]" and p = q and url = url]
      c1 d that by simp
qed

lemma typed_a:
  "insert_text (\<lambda>_. None) NoteBuffer_init 0 (py_str ''a'') =
     \<lparr>cells = [(Chr 97, {})], tag_table = map Named TAG_DEFINITIONS,
      insert_mark = 1, selection_bound = 1,
      internal_action_count = 0, in_composite = 0, composite_actions = [],
      undo_actions = [AdditionAction (py_str ''a'') 0],
      redo_actions = [], idle_sources = 1, content_changed = 0, printed = []\<rparr>"
  by code_simp

lemma typed_a_undone:
  "undo (insert_text (\<lambda>_. None) NoteBuffer_init 0 (py_str ''a'')) =
     (Inr (), \<lparr>cells = [], tag_table = map Named TAG_DEFINITIONS,
      insert_mark = 0, selection_bound = 0,
      internal_action_count = 0, in_composite = 0, composite_actions = [],
      undo_actions = [],
      redo_actions = [AdditionAction (py_str ''a'') 0], idle_sources = 2, content_changed = 0,
      printed = []\<rparr>)"
  by code_simp

subsection \<open>Joining actions\<close>

text \<open>
  C2: \<open>maybe_join\<close> of one \<open>AdditionAction\<close> with another succeeds exactly when the new
  position is the old position plus the length of the old text, and then the old action
  holds the two texts concatenated; otherwise it is unchanged. Consequently, in a buffer
  that is neither inside an internal action nor inside a composite, and whose last undo
  action (if any) does not take the first character: inserting \<open>"a"\<close> at \<open>p\<close> and then \<open>"b"\<close>
  at \<open>p + 1\<close> adds exactly one undo action, \<open>AdditionAction "ab" p\<close>, and \<open>undo\<close> then returns
  normally and restores the cells and the undo stack from before; inserting \<open>"b"\<close> at any
  other offset adds two undo actions. Typing the two characters in the view, which
  brackets each insertion as a user action, leaves the same buffer and the same stacks.
\<close>

theorem typing_merges:
  assumes "internal_action_count s = 0" and "in_composite s = 0" and "composite_actions s = []"
    and "p \<le> length (cells s)"
    and "undo_actions s = [] \<or>
              \<not> fst (maybe_join (last (undo_actions s)) (AdditionAction (py_str ''a'') (int p)))"
  shows "maybe_join (AdditionAction ta pa) (AdditionAction tb pb) =
           (if pb = pa + int (length ta) then (True, AdditionAction (ta @ tb) pa)
            else (False, AdditionAction ta pa))
       \<and> undo_actions (insert_text url (insert_text url s p (py_str ''a'')) (Suc p) (py_str ''b'')) =
           undo_actions s @ [AdditionAction (py_str ''ab'') (int p)]
       \<and> fst (undo (insert_text url (insert_text url s p (py_str ''a'')) (Suc p) (py_str ''b''))) = Inr ()
       \<and> cells (snd (undo (insert_text url (insert_text url s p (py_str ''a'')) (Suc p) (py_str ''b'')))) =
           cells s
       \<and> undo_actions (snd (undo (insert_text url (insert_text url s p (py_str ''a'')) (Suc p) (py_str ''b'')))) =
           undo_actions s
       \<and> (q \<noteq> Suc p \<longrightarrow>
         undo_actions (insert_text url (insert_text url s p (py_str ''a'')) q (py_str ''b'')) =
           undo_actions s @ [AdditionAction (py_str ''a'') (int p), AdditionAction (py_str ''b'') (int q)])
       \<and> user_insert_text url (user_insert_text url s p (py_str ''a'')) (Suc p) (py_str ''b'') =
           insert_text url (insert_text url s p (py_str ''a'')) (Suc p) (py_str ''b'')
       \<and> (q \<noteq> Suc p \<longrightarrow>
         user_insert_text url (user_insert_text url s p (py_str ''a'')) q (py_str ''b'') =
           insert_text url (insert_text url s p (py_str ''a'')) q (py_str ''b''))"
  using typing_two_characters(1-4) [where s = s and p = p and c = 97 and d = 98 and url = url]
    typing_two_characters(5) [where s = s and p = p and c = 97 and d = 98 and url = url and q = q]
    user_typing_two_characters(1) [where s = s and p = p and c = 97 and d = 98 and url = url]
    user_typing_two_characters(2) [where s = s and p = p and c = 97 and d = 98 and url = url and q = q]
    assms a_not_sep
  by simp

theorem typing_merges_witness:
  "undo_actions (insert_text (\<lambda>_. None) (insert_text (\<lambda>_. None) NoteBuffer_init 0 (py_str ''a'')) 1 (py_str ''b'')) =
     [AdditionAction (py_str ''ab'') 0]
   \<and> cells (snd (undo (insert_text (\<lambda>_. None) (insert_text (\<lambda>_. None) NoteBuffer_init 0 (py_str ''a'')) 1 (py_str ''b'')))) = []
   \<and> undo_actions (insert_text (\<lambda>_. None) (insert_text (\<lambda>_. None) NoteBuffer_init 0 (py_str ''a'')) 0 (py_str ''b'')) =
     [AdditionAction (py_str ''a'') 0, AdditionAction (py_str ''b'') 0]
   \<and> undo_actions (user_insert_text (\<lambda>_. None) (user_insert_text (\<lambda>_. None) NoteBuffer_init 0 (py_str ''a'')) 1 (py_str ''b'')) =
     [AdditionAction (py_str ''ab'') 0]
   \<and> undo_actions (user_insert_text (\<lambda>_. None) (user_insert_text (\<lambda>_. None) NoteBuffer_init 0 (py_str ''a'')) 0 (py_str ''b'')) =
     [AdditionAction (py_str ''a'') 0, AdditionAction (py_str ''b'') 0]"
proof -
  have h: "internal_action_count NoteBuffer_init = 0" "in_composite NoteBuffer_init = 0"
    "composite_actions NoteBuffer_init = []" "0 \<le> length (cells NoteBuffer_init)"
    "undo_actions NoteBuffer_init = [] \<or>
       \<not> fst (maybe_join (last (undo_actions NoteBuffer_init)) (AdditionAction (py_str ''a'') (int 0)))"
    by (simp_all add: NoteBuffer_init_def)
  show ?thesis
    using typing_merges [OF h, where url = "\<lambda>_. None" and q = 0]
    by (simp add: NoteBuffer_init_def)
qed

text \<open>
  C3: two deletions join only when they have the same \<open>deletion_type\<close>. With
  \<open>'foreward'\<close> they join exactly when the new position equals the old one, and the new
  text is appended; with \<open>'backward'\<close> exactly when the new position is the old one minus 1,
  and then the new text is prepended and the new position adopted. A deletion of type
  \<open>'selection'\<close> or \<open>'other'\<close> joins with no action at all.
\<close>

theorem DeletionAction_maybe_join_rule:
  "(fst (maybe_join (DeletionAction ta pa ca) (DeletionAction tb pb cb)) \<longrightarrow> cb = ca)
   \<and> maybe_join (DeletionAction ta pa Foreward) (DeletionAction tb pb Foreward) =
       (if pb = pa then (True, DeletionAction (ta @ tb) pa Foreward)
        else (False, DeletionAction ta pa Foreward))
   \<and> maybe_join (DeletionAction ta pa Backward) (DeletionAction tb pb Backward) =
       (if pb = pa - 1 then (True, DeletionAction (tb @ ta) pb Backward)
        else (False, DeletionAction ta pa Backward))
   \<and> maybe_join (DeletionAction ta pa Selection) new_action = (False, DeletionAction ta pa Selection)
   \<and> maybe_join (DeletionAction ta pa Other) new_action = (False, DeletionAction ta pa Other)"
  by (cases new_action) (auto split: if_splits)

theorem DeletionAction_maybe_join_rule_witness:
  "fst (maybe_join (DeletionAction (py_str ''c'') 2 Backward) (DeletionAction (py_str ''b'') 1 Backward))
   \<and> Backward = Backward
   \<and> maybe_join (DeletionAction (py_str ''c'') 2 Backward) (DeletionAction (py_str ''b'') 1 Backward) =
       (True, DeletionAction (py_str ''bc'') 1 Backward)
   \<and> maybe_join (DeletionAction (py_str ''b'') 1 Foreward) (DeletionAction (py_str ''c'') 1 Foreward) =
       (True, DeletionAction (py_str ''bc'') 1 Foreward)"
  using DeletionAction_maybe_join_rule [of "py_str ''c''" 2 Backward "py_str ''b''" 1 Backward]
    DeletionAction_maybe_join_rule [of "py_str ''b''" 1 Foreward "py_str ''c''" 1 Foreward]
  by simp

subsection \<open>The two stacks\<close>

text \<open>
  C4: \<open>add_undo_action\<close> outside a composite appends the action to the undo stack and
  empties the redo stack. Whenever \<open>on_insert\<close> changes the length of the undo stack (it
  pushed, rather than joined or left the action to a composite), the redo stack is empty
  afterwards, and so it is when \<open>end_composite_action\<close> closes the outermost composite with
  pending actions. An action that \<open>undo\<close> or \<open>redo\<close> takes from one stack leaves that stack:
  the two stacks never share it.
\<close>

theorem push_clears_redo:
  "(in_composite s = 0 \<longrightarrow>
      undo_actions (add_undo_action s a) = undo_actions s @ [a] \<and>
      redo_actions (add_undo_action s a) = [])
   \<and> (length (undo_actions (snd (on_insert url s loc t))) \<noteq> length (undo_actions s) \<longrightarrow>
      redo_actions (snd (on_insert url s loc t)) = [])
   \<and> (in_composite s = 1 \<and> composite_actions s \<noteq> [] \<longrightarrow>
      length (undo_actions (end_composite_action s)) = length (undo_actions s) + 1 \<and>
      redo_actions (end_composite_action s) = [])
   \<and> (undo_actions s \<noteq> [] \<longrightarrow> undo_actions (snd (undo s)) = butlast (undo_actions s))
   \<and> (redo_actions s \<noteq> [] \<longrightarrow> redo_actions (snd (redo s)) = butlast (redo_actions s))"
proof (intro conjI impI)
  assume "in_composite s = 0"
  then show "undo_actions (add_undo_action s a) = undo_actions s @ [a]"
    "redo_actions (add_undo_action s a) = []"
    by (simp_all add: add_undo_action_def)
next
  assume "length (undo_actions (snd (on_insert url s loc t))) \<noteq> length (undo_actions s)"
  then show "redo_actions (snd (on_insert url s loc t)) = []"
    using on_insert_pushed_or_kept [of s url loc t] by (auto simp add: pushed_or_kept_def)
next
  assume "in_composite s = 1 \<and> composite_actions s \<noteq> []"
  then show "length (undo_actions (end_composite_action s)) = length (undo_actions s) + 1"
    "redo_actions (end_composite_action s) = []"
    by (simp_all add: end_composite_action_def add_undo_action_def Let_def)
next
  assume "undo_actions s \<noteq> []"
  then show "undo_actions (snd (undo s)) = butlast (undo_actions s)" by (rule undo_stacks)
next
  assume "redo_actions s \<noteq> []"
  then show "redo_actions (snd (redo s)) = butlast (redo_actions s)" by (rule redo_stacks)
qed

theorem push_clears_redo_witness:
  "in_composite (snd (undo (insert_text (\<lambda>_. None) NoteBuffer_init 0 (py_str ''a'')))) = 0
   \<and> redo_actions (snd (undo (insert_text (\<lambda>_. None) NoteBuffer_init 0 (py_str ''a'')))) =
       [AdditionAction (py_str ''a'') 0]
   \<and> undo_actions (add_undo_action (snd (undo (insert_text (\<lambda>_. None) NoteBuffer_init 0 (py_str ''a''))))
        (TagAction (py_str ''bold'') 0 0 True)) = [TagAction (py_str ''bold'') 0 0 True]
   \<and> redo_actions (add_undo_action (snd (undo (insert_text (\<lambda>_. None) NoteBuffer_init 0 (py_str ''a''))))
        (TagAction (py_str ''bold'') 0 0 True)) = []
   \<and> length (undo_actions (snd (on_insert (\<lambda>_. None)
        (snd (undo (insert_text (\<lambda>_. None) NoteBuffer_init 0 (py_str ''a'')))) 0 (py_str ''b'')))) \<noteq>
      length (undo_actions (snd (undo (insert_text (\<lambda>_. None) NoteBuffer_init 0 (py_str ''a'')))))
   \<and> redo_actions (snd (on_insert (\<lambda>_. None)
        (snd (undo (insert_text (\<lambda>_. None) NoteBuffer_init 0 (py_str ''a'')))) 0 (py_str ''b''))) = []
   \<and> redo_actions (end_composite_action
        ((snd (undo (insert_text (\<lambda>_. None) NoteBuffer_init 0 (py_str ''a''))))
           \<lparr>in_composite := 1, composite_actions := [TagAction (py_str ''bold'') 0 0 True]\<rparr>)) = []
   \<and> undo_actions (snd (undo (insert_text (\<lambda>_. None) NoteBuffer_init 0 (py_str ''a'')))) = []
   \<and> redo_actions (snd (redo (snd (undo (insert_text (\<lambda>_. None) NoteBuffer_init 0 (py_str ''a'')))))) = []"
proof -
  let ?s = "insert_text (\<lambda>_. None) NoteBuffer_init 0 (py_str ''a'')"
  let ?u = "snd (undo ?s)"
  let ?t = "TagAction (py_str ''bold'') 0 0 True"
  have u: "?u = \<lparr>cells = [], tag_table = map Named TAG_DEFINITIONS,
      insert_mark = 0, selection_bound = 0,
      internal_action_count = 0, in_composite = 0, composite_actions = [],
      undo_actions = [],
      redo_actions = [AdditionAction (py_str ''a'') 0], idle_sources = 2, content_changed = 0,
      printed = []\<rparr>"
    unfolding typed_a_undone by simp
  have grow: "length (undo_actions (snd (on_insert (\<lambda>_. None) ?u 0 (py_str ''b'')))) \<noteq>
      length (undo_actions ?u)"
    unfolding u by code_simp
  show ?thesis
    using push_clears_redo [of ?u ?t "\<lambda>_. None" 0 "py_str ''b''"] grow
      push_clears_redo [of "?u\<lparr>in_composite := 1, composite_actions := [?t]\<rparr>"]
      push_clears_redo [of ?s]
    unfolding u unfolding typed_a by simp
qed







lemma action_undo_same:
  "\<forall>a'. fst (action_undo a s) = Inr a' \<longrightarrow> forget_checked a' = forget_checked a"
  and undo_reversed_same:
  "\<forall>as'. fst (undo_reversed as s) = Inr as' \<longrightarrow> map forget_checked as' = map forget_checked as"
proof (induction a s and as s rule: action_undo_undo_reversed.induct)
  case (3 is_addition at position checked s)
  obtain r s' where "(if is_addition then ObjectInsertAction_remove at position checked s
            else ObjectInsertAction_add at position checked s) = (r, s')" by (metis surj_pair)
  then show ?case by (cases r) auto
next
  case (5 child_actions s)
  obtain r s' where u: "undo_reversed child_actions s = (r, s')" by (metis surj_pair)
  show ?case using 5 u by (cases r) auto
next
  case (7 a later s)
  obtain r s1 where u: "undo_reversed later s = (r, s1)" by (metis surj_pair)
  obtain r2 s2 where v: "action_undo a s1 = (r2, s2)" by (metis surj_pair)
  show ?case
  proof (cases r)
    case (Inl e)
    then show ?thesis using u by simp
  next
    case (Inr later')
    show ?thesis using 7(1) 7(2) [OF u [symmetric] Inr] u v Inr by (cases r2) auto
  qed
qed simp_all

lemma action_redo_same:
  "\<forall>a'. fst (action_redo a s) = Inr a' \<longrightarrow> forget_checked a' = forget_checked a"
  and redo_in_order_same:
  "\<forall>as'. fst (redo_in_order as s) = Inr as' \<longrightarrow> map forget_checked as' = map forget_checked as"
proof (induction a s and as s rule: action_redo_redo_in_order.induct)
  case (3 is_addition at position checked s)
  obtain r s' where "(if is_addition then ObjectInsertAction_add at position checked s
            else ObjectInsertAction_remove at position checked s) = (r, s')" by (metis surj_pair)
  then show ?case by (cases r) auto
next
  case (5 child_actions s)
  obtain r s' where u: "redo_in_order child_actions s = (r, s')" by (metis surj_pair)
  show ?case using 5 u by (cases r) auto
next
  case (7 a later s)
  obtain r s1 where u: "action_redo a s = (r, s1)" by (metis surj_pair)
  obtain r2 s2 where v: "redo_in_order later s1 = (r2, s2)" by (metis surj_pair)
  show ?case
  proof (cases r)
    case (Inl e)
    then show ?thesis using u by simp
  next
    case (Inr a')
    show ?thesis using 7(1) 7(2) [OF u [symmetric] Inr] u v Inr by (cases r2) auto
  qed
qed simp_all

lemma vocabulary_cells_only:
  assumes "cells s' = cells s" and "tag_table s' = tag_table s"
  shows "removed_cells s' a b = removed_cells s a b"
    and "added_cells s' a new = added_cells s a new"
    and "retagged_cells s' n a b tagged = retagged_cells s n a b tagged"
    and "get_iter_at_offset s' a = get_iter_at_offset s a"
    and "get_child_anchor s' it = get_child_anchor s it"
  unfolding removed_cells_def added_cells_def retagged_cells_def get_iter_at_offset_def
    get_char_count_def tags_before_def tags_at_def get_child_anchor_def assms
  by (rule refl)+

lemma retag_nth:
  "retag f lo hi cs =
     map (\<lambda>k. if lo \<le> k \<and> k < hi then (fst (cs ! k), f (snd (cs ! k))) else cs ! k) [0 ..< length cs]"
  by (rule nth_equalityI) (simp_all add: retag_def)

lemma toolkit_cells:
  "cells (TextBuffer_delete s (get_iter_at_offset s a) (get_iter_at_offset s b)) = removed_cells s a b"
  "cells (TextBuffer_insert s (get_iter_at_offset s a) t) = added_cells s a (map Chr t)"
  "cells (create_child_anchor s (get_iter_at_offset s a) w) = added_cells s a [Anchor w]"
  "cells (apply_tag_by_name s n (get_iter_at_offset s a) (get_iter_at_offset s b)) =
     retagged_cells s n a b True"
  "cells (remove_tag_by_name s n (get_iter_at_offset s a) (get_iter_at_offset s b)) =
     retagged_cells s n a b False"
  by (simp_all add: TextBuffer_delete_def delete_range_default_def TextBuffer_insert_def
      insert_text_default_def insert_cells_def create_child_anchor_def apply_tag_by_name_def
      remove_tag_by_name_def removed_cells_def added_cells_def retagged_cells_def retag_nth Let_def)

lemma vocabulary_enter [simp]:
  "removed_cells (InternalActionHandler_enter s) a b = removed_cells s a b"
  "added_cells (InternalActionHandler_enter s) a new = added_cells s a new"
  "retagged_cells (InternalActionHandler_enter s) n a b tagged = retagged_cells s n a b tagged"
  "get_iter_at_offset (InternalActionHandler_enter s) a = get_iter_at_offset s a"
  "get_child_anchor (InternalActionHandler_enter s) it = get_child_anchor s it"
  "removed_cells (s\<lparr>undo_actions := us\<rparr>) a b = removed_cells s a b"
  "added_cells (s\<lparr>undo_actions := us\<rparr>) a new = added_cells s a new"
  "retagged_cells (s\<lparr>undo_actions := us\<rparr>) n a b tagged = retagged_cells s n a b tagged"
  "get_iter_at_offset (s\<lparr>undo_actions := us\<rparr>) a = get_iter_at_offset s a"
  "get_child_anchor (s\<lparr>undo_actions := us\<rparr>) it = get_child_anchor s it"
  "removed_cells (s\<lparr>redo_actions := us\<rparr>) a b = removed_cells s a b"
  "added_cells (s\<lparr>redo_actions := us\<rparr>) a new = added_cells s a new"
  "retagged_cells (s\<lparr>redo_actions := us\<rparr>) n a b tagged = retagged_cells s n a b tagged"
  "get_iter_at_offset (s\<lparr>redo_actions := us\<rparr>) a = get_iter_at_offset s a"
  "get_child_anchor (s\<lparr>redo_actions := us\<rparr>) it = get_child_anchor s it"
  by (rule vocabulary_cells_only; simp)+

lemma add_object_cells:
  "cells (snd (add_check_button s (get_iter_at_offset s a) c)) = added_cells s a [Anchor (CheckButton c)]"
  "cells (snd (add_bullet s (get_iter_at_offset s a))) = added_cells s a [Anchor Image]"
proof -
  let ?e = "InternalActionHandler_enter s"
  have c: "cells (create_child_anchor ?e (get_iter_at_offset s a) w) = added_cells s a [Anchor w]" for w
    using toolkit_cells(3) [of ?e a w] by simp
  show "cells (snd (add_check_button s (get_iter_at_offset s a) c)) = added_cells s a [Anchor (CheckButton c)]"
    unfolding add_check_button_def internal_action_def Let_def
    by (simp add: c)
  show "cells (snd (add_bullet s (get_iter_at_offset s a))) = added_cells s a [Anchor Image]"
    unfolding add_bullet_def internal_action_def Let_def
    by (simp add: c)
qed

lemma action_undo_cells:
  "action_undo (AdditionAction t p) s = (Inr (AdditionAction t p), AdditionAction_undo t p s)"
  "cells (AdditionAction_undo t p s) = removed_cells s p (p + int (length t))"
  "cells (DeletionAction_undo t p s) = added_cells s p (map Chr t)"
  "cells (AdditionAction_redo t p s) = added_cells s p (map Chr t)"
  "cells (DeletionAction_redo t p s) = removed_cells s p (p + int (length t))"
  "cells (TagAction_add n a b s) = retagged_cells s n a b True"
  "cells (TagAction_remove n a b s) = retagged_cells s n a b False"
  by (simp_all add: AdditionAction_undo_def DeletionAction_undo_def AdditionAction_redo_def
      DeletionAction_redo_def TagAction_add_def TagAction_remove_def toolkit_cells)

lemma ObjectInsertAction_add_result:
  "ObjectInsertAction_add Check p None s = (Inl AttributeError, s)"
  "fst (ObjectInsertAction_add Check p (Some v) s) = Inr (Some v)"
  "cells (snd (ObjectInsertAction_add Check p (Some v) s)) = added_cells s p [Anchor (CheckButton v)]"
  "fst (ObjectInsertAction_add Bullet p c s) = Inr c"
  "cells (snd (ObjectInsertAction_add Bullet p c s)) = added_cells s p [Anchor Image]"
  by (simp_all add: ObjectInsertAction_add_def add_object_cells)

lemma ObjectInsertAction_remove_result:
  "fst (ObjectInsertAction_remove Bullet p c s) = Inr c"
  "cells (snd (ObjectInsertAction_remove Bullet p c s)) = removed_cells s p (p + 1)"
  "get_child_anchor s (get_iter_at_offset s p) = Some (CheckButton v) \<Longrightarrow>
     fst (ObjectInsertAction_remove Check p c s) = Inr (Some v)"
  "get_child_anchor s (get_iter_at_offset s p) = Some (CheckButton v) \<Longrightarrow>
     cells (snd (ObjectInsertAction_remove Check p c s)) = removed_cells s p (p + 1)"
  "get_child_anchor s (get_iter_at_offset s p) \<notin> range (\<lambda>v. Some (CheckButton v)) \<Longrightarrow>
     ObjectInsertAction_remove Check p c s = (Inl AttributeError, s)"
  by (auto simp add: ObjectInsertAction_remove_def toolkit_cells Let_def
      split: option.splits widget.splits)

lemma undo_reversed_snoc:
  "undo_reversed (as @ [z]) s =
     (case action_undo z s of
        (Inl e, s1) \<Rightarrow> (Inl e, s1)
      | (Inr z', s1) \<Rightarrow>
          (case undo_reversed as s1 of
             (Inl e, s2) \<Rightarrow> (Inl e, s2)
           | (Inr as', s2) \<Rightarrow> (Inr (as' @ [z']), s2)))"
  by (induction as arbitrary: s) (auto split: prod.splits sum.splits)

lemma redo_in_order_cons:
  "redo_in_order (z # as) s =
     (case action_redo z s of
        (Inl e, s1) \<Rightarrow> (Inl e, s1)
      | (Inr z', s1) \<Rightarrow>
          (case redo_in_order as s1 of
             (Inl e, s2) \<Rightarrow> (Inl e, s2)
           | (Inr as', s2) \<Rightarrow> (Inr (z' # as'), s2)))"
  by simp

lemma undo_outcome:
  "undo_actions s = us @ [a] \<longrightarrow>
     undo_actions (snd (undo s)) = us \<and>
     cells (snd (undo s)) =
       cells (snd (action_undo a (InternalActionHandler_enter s\<lparr>undo_actions := us\<rparr>))) \<and>
     (case fst (action_undo a (InternalActionHandler_enter s\<lparr>undo_actions := us\<rparr>)) of
        Inr a' \<Rightarrow> fst (undo s) = Inr () \<and> redo_actions (snd (undo s)) = redo_actions s @ [a'] \<and>
                  forget_checked a' = forget_checked a
      | Inl e \<Rightarrow> fst (undo s) = Inl e \<and> redo_actions (snd (undo s)) = redo_actions s)"
proof
  assume ua: "undo_actions s = us @ [a]"
  let ?s0 = "InternalActionHandler_enter s\<lparr>undo_actions := us\<rparr>"
  obtain r s2 where au: "action_undo a ?s0 = (r, s2)" by (metis surj_pair)
  have f: "undo_actions s2 = us" "redo_actions s2 = redo_actions s"
    using au action_undo_frame [of a ?s0] by simp_all
  have same: "forget_checked a' = forget_checked a" if "r = Inr a'" for a'
    using action_undo_same [of a ?s0] au that by simp
  show "undo_actions (snd (undo s)) = us \<and>
     cells (snd (undo s)) = cells (snd (action_undo a ?s0)) \<and>
     (case fst (action_undo a ?s0) of
        Inr a' \<Rightarrow> fst (undo s) = Inr () \<and> redo_actions (snd (undo s)) = redo_actions s @ [a'] \<and>
                  forget_checked a' = forget_checked a
      | Inl e \<Rightarrow> fst (undo s) = Inl e \<and> redo_actions (snd (undo s)) = redo_actions s)"
    using f same by (cases r) (simp_all add: undo_nonempty [OF ua] au)
qed

lemma redo_outcome:
  "redo_actions s = rs @ [a] \<longrightarrow>
     redo_actions (snd (redo s)) = rs \<and>
     cells (snd (redo s)) =
       cells (snd (action_redo a (InternalActionHandler_enter s\<lparr>redo_actions := rs\<rparr>))) \<and>
     (case fst (action_redo a (InternalActionHandler_enter s\<lparr>redo_actions := rs\<rparr>)) of
        Inr a' \<Rightarrow> fst (redo s) = Inr () \<and> undo_actions (snd (redo s)) = undo_actions s @ [a'] \<and>
                  forget_checked a' = forget_checked a
      | Inl e \<Rightarrow> fst (redo s) = Inl e \<and> undo_actions (snd (redo s)) = undo_actions s)"
proof
  assume ra: "redo_actions s = rs @ [a]"
  let ?s0 = "InternalActionHandler_enter s\<lparr>redo_actions := rs\<rparr>"
  obtain r s2 where ar: "action_redo a ?s0 = (r, s2)" by (metis surj_pair)
  have f: "redo_actions s2 = rs" "undo_actions s2 = undo_actions s"
    using ar action_redo_frame [of a ?s0] by simp_all
  have same: "forget_checked a' = forget_checked a" if "r = Inr a'" for a'
    using action_redo_same [of a ?s0] ar that by simp
  show "redo_actions (snd (redo s)) = rs \<and>
     cells (snd (redo s)) = cells (snd (action_redo a ?s0)) \<and>
     (case fst (action_redo a ?s0) of
        Inr a' \<Rightarrow> fst (redo s) = Inr () \<and> undo_actions (snd (redo s)) = undo_actions s @ [a'] \<and>
                  forget_checked a' = forget_checked a
      | Inl e \<Rightarrow> fst (redo s) = Inl e \<and> undo_actions (snd (redo s)) = undo_actions s)"
    using f same by (cases r) (simp_all add: redo_nonempty [OF ra] ar)
qed

lemma action_replay_parts:
  "fst (action_undo (ObjectInsertAction is_addition at p c) s) =
     map_sum id (ObjectInsertAction is_addition at p)
       (fst (if is_addition then ObjectInsertAction_remove at p c s
             else ObjectInsertAction_add at p c s))"
  "snd (action_undo (ObjectInsertAction is_addition at p c) s) =
     snd (if is_addition then ObjectInsertAction_remove at p c s
          else ObjectInsertAction_add at p c s)"
  "fst (action_redo (ObjectInsertAction is_addition at p c) s) =
     map_sum id (ObjectInsertAction is_addition at p)
       (fst (if is_addition then ObjectInsertAction_add at p c s
             else ObjectInsertAction_remove at p c s))"
  "snd (action_redo (ObjectInsertAction is_addition at p c) s) =
     snd (if is_addition then ObjectInsertAction_add at p c s
          else ObjectInsertAction_remove at p c s)"
  by (simp_all split: prod.splits sum.splits)

lemma undo_AdditionAction:
  "undo_actions s = xs @ [AdditionAction t p] \<longrightarrow>
      fst (undo s) = Inr () \<and> cells (snd (undo s)) = removed_cells s p (p + int (length t)) \<and>
      redo_actions (snd (undo s)) = redo_actions s @ [AdditionAction t p]"
  using undo_outcome [of s xs "AdditionAction t p"]
  by (simp add: action_replay_parts action_undo_cells ObjectInsertAction_add_result
      ObjectInsertAction_remove_result)

lemma undo_DeletionAction:
  "undo_actions s = xs @ [DeletionAction t p d] \<longrightarrow>
      fst (undo s) = Inr () \<and> cells (snd (undo s)) = added_cells s p (map Chr t) \<and>
      redo_actions (snd (undo s)) = redo_actions s @ [DeletionAction t p d]"
  using undo_outcome [of s xs "DeletionAction t p d"]
  by (simp add: action_replay_parts action_undo_cells ObjectInsertAction_add_result
      ObjectInsertAction_remove_result)

lemma undo_TagAction:
  "undo_actions s = xs @ [TagAction n x y is_addition] \<longrightarrow>
      fst (undo s) = Inr () \<and> cells (snd (undo s)) = retagged_cells s n x y (\<not> is_addition) \<and>
      redo_actions (snd (undo s)) = redo_actions s @ [TagAction n x y is_addition]"
  using undo_outcome [of s xs "TagAction n x y is_addition"]
  by (simp add: action_replay_parts action_undo_cells ObjectInsertAction_add_result
      ObjectInsertAction_remove_result)

lemma undo_remove_bullet:
  "undo_actions s = xs @ [ObjectInsertAction True Bullet p c] \<longrightarrow>
      fst (undo s) = Inr () \<and> cells (snd (undo s)) = removed_cells s p (p + 1) \<and>
      redo_actions (snd (undo s)) = redo_actions s @ [ObjectInsertAction True Bullet p c]"
  using undo_outcome [of s xs "ObjectInsertAction True Bullet p c", unfolded action_replay_parts]
  by (simp add: ObjectInsertAction_add_result ObjectInsertAction_remove_result)

lemma undo_remove_check:
  "undo_actions s = xs @ [ObjectInsertAction True Check p c] \<and>
      get_child_anchor s (get_iter_at_offset s p) = Some (CheckButton v) \<longrightarrow>
      fst (undo s) = Inr () \<and> cells (snd (undo s)) = removed_cells s p (p + 1) \<and>
      redo_actions (snd (undo s)) = redo_actions s @ [ObjectInsertAction True Check p (Some v)]"
proof
  assume h: "undo_actions s = xs @ [ObjectInsertAction True Check p c] \<and>
      get_child_anchor s (get_iter_at_offset s p) = Some (CheckButton v)"
  have r: "fst (ObjectInsertAction_remove Check p c (InternalActionHandler_enter s\<lparr>undo_actions := xs\<rparr>)) = Inr (Some v)"
    "cells (snd (ObjectInsertAction_remove Check p c (InternalActionHandler_enter s\<lparr>undo_actions := xs\<rparr>))) = removed_cells s p (p + 1)"
    using ObjectInsertAction_remove_result(3,4) [of "InternalActionHandler_enter s\<lparr>undo_actions := xs\<rparr>" p v c] h by simp_all
  show "fst (undo s) = Inr () \<and> cells (snd (undo s)) = removed_cells s p (p + 1) \<and>
      redo_actions (snd (undo s)) = redo_actions s @ [ObjectInsertAction True Check p (Some v)]"
    using undo_outcome [of s xs "ObjectInsertAction True Check p c", unfolded action_replay_parts] h r
    by simp
qed

lemma undo_remove_missing:
  "undo_actions s = xs @ [ObjectInsertAction True Check p c] \<and>
      get_child_anchor s (get_iter_at_offset s p) \<notin> range (\<lambda>v. Some (CheckButton v)) \<longrightarrow>
      fst (undo s) = Inl AttributeError \<and> cells (snd (undo s)) = cells s \<and>
      redo_actions (snd (undo s)) = redo_actions s"
proof
  assume h: "undo_actions s = xs @ [ObjectInsertAction True Check p c] \<and>
      get_child_anchor s (get_iter_at_offset s p) \<notin> range (\<lambda>v. Some (CheckButton v))"
  have r: "ObjectInsertAction_remove Check p c (InternalActionHandler_enter s\<lparr>undo_actions := xs\<rparr>) = (Inl AttributeError, InternalActionHandler_enter s\<lparr>undo_actions := xs\<rparr>)"
    using ObjectInsertAction_remove_result(5) [of "InternalActionHandler_enter s\<lparr>undo_actions := xs\<rparr>" p c] h by simp
  show "fst (undo s) = Inl AttributeError \<and> cells (snd (undo s)) = cells s \<and>
      redo_actions (snd (undo s)) = redo_actions s"
    using undo_outcome [of s xs "ObjectInsertAction True Check p c", unfolded action_replay_parts] h r
    by simp
qed

lemma undo_add_bullet:
  "undo_actions s = xs @ [ObjectInsertAction False Bullet p c] \<longrightarrow>
      fst (undo s) = Inr () \<and> cells (snd (undo s)) = added_cells s p [Anchor Image] \<and>
      redo_actions (snd (undo s)) = redo_actions s @ [ObjectInsertAction False Bullet p c]"
  using undo_outcome [of s xs "ObjectInsertAction False Bullet p c", unfolded action_replay_parts]
  by (simp add: ObjectInsertAction_add_result ObjectInsertAction_remove_result)

lemma undo_add_check:
  "undo_actions s = xs @ [ObjectInsertAction False Check p (Some v)] \<longrightarrow>
      fst (undo s) = Inr () \<and> cells (snd (undo s)) = added_cells s p [Anchor (CheckButton v)] \<and>
      redo_actions (snd (undo s)) = redo_actions s @ [ObjectInsertAction False Check p (Some v)]"
  using undo_outcome [of s xs "ObjectInsertAction False Check p (Some v)", unfolded action_replay_parts]
  by (simp add: ObjectInsertAction_add_result ObjectInsertAction_remove_result)

lemma undo_add_unset:
  "undo_actions s = xs @ [ObjectInsertAction False Check p None] \<longrightarrow>
      fst (undo s) = Inl AttributeError \<and> cells (snd (undo s)) = cells s \<and>
      redo_actions (snd (undo s)) = redo_actions s"
  using undo_outcome [of s xs "ObjectInsertAction False Check p None", unfolded action_replay_parts]
  by (simp add: ObjectInsertAction_add_result ObjectInsertAction_remove_result)

lemma redo_AdditionAction:
  "redo_actions s = xs @ [AdditionAction t p] \<longrightarrow>
      fst (redo s) = Inr () \<and> cells (snd (redo s)) = added_cells s p (map Chr t) \<and>
      undo_actions (snd (redo s)) = undo_actions s @ [AdditionAction t p]"
  using redo_outcome [of s xs "AdditionAction t p"]
  by (simp add: action_replay_parts action_undo_cells ObjectInsertAction_add_result
      ObjectInsertAction_remove_result)

lemma redo_DeletionAction:
  "redo_actions s = xs @ [DeletionAction t p d] \<longrightarrow>
      fst (redo s) = Inr () \<and> cells (snd (redo s)) = removed_cells s p (p + int (length t)) \<and>
      undo_actions (snd (redo s)) = undo_actions s @ [DeletionAction t p d]"
  using redo_outcome [of s xs "DeletionAction t p d"]
  by (simp add: action_replay_parts action_undo_cells ObjectInsertAction_add_result
      ObjectInsertAction_remove_result)

lemma redo_TagAction:
  "redo_actions s = xs @ [TagAction n x y is_addition] \<longrightarrow>
      fst (redo s) = Inr () \<and> cells (snd (redo s)) = retagged_cells s n x y is_addition \<and>
      undo_actions (snd (redo s)) = undo_actions s @ [TagAction n x y is_addition]"
  using redo_outcome [of s xs "TagAction n x y is_addition"]
  by (simp add: action_replay_parts action_undo_cells ObjectInsertAction_add_result
      ObjectInsertAction_remove_result)

lemma redo_remove_bullet:
  "redo_actions s = xs @ [ObjectInsertAction False Bullet p c] \<longrightarrow>
      fst (redo s) = Inr () \<and> cells (snd (redo s)) = removed_cells s p (p + 1) \<and>
      undo_actions (snd (redo s)) = undo_actions s @ [ObjectInsertAction False Bullet p c]"
  using redo_outcome [of s xs "ObjectInsertAction False Bullet p c", unfolded action_replay_parts]
  by (simp add: ObjectInsertAction_add_result ObjectInsertAction_remove_result)

lemma redo_remove_check:
  "redo_actions s = xs @ [ObjectInsertAction False Check p c] \<and>
      get_child_anchor s (get_iter_at_offset s p) = Some (CheckButton v) \<longrightarrow>
      fst (redo s) = Inr () \<and> cells (snd (redo s)) = removed_cells s p (p + 1) \<and>
      undo_actions (snd (redo s)) = undo_actions s @ [ObjectInsertAction False Check p (Some v)]"
proof
  assume h: "redo_actions s = xs @ [ObjectInsertAction False Check p c] \<and>
      get_child_anchor s (get_iter_at_offset s p) = Some (CheckButton v)"
  have r: "fst (ObjectInsertAction_remove Check p c (InternalActionHandler_enter s\<lparr>redo_actions := xs\<rparr>)) = Inr (Some v)"
    "cells (snd (ObjectInsertAction_remove Check p c (InternalActionHandler_enter s\<lparr>redo_actions := xs\<rparr>))) = removed_cells s p (p + 1)"
    using ObjectInsertAction_remove_result(3,4) [of "InternalActionHandler_enter s\<lparr>redo_actions := xs\<rparr>" p v c] h by simp_all
  show "fst (redo s) = Inr () \<and> cells (snd (redo s)) = removed_cells s p (p + 1) \<and>
      undo_actions (snd (redo s)) = undo_actions s @ [ObjectInsertAction False Check p (Some v)]"
    using redo_outcome [of s xs "ObjectInsertAction False Check p c", unfolded action_replay_parts] h r
    by simp
qed

lemma redo_remove_missing:
  "redo_actions s = xs @ [ObjectInsertAction False Check p c] \<and>
      get_child_anchor s (get_iter_at_offset s p) \<notin> range (\<lambda>v. Some (CheckButton v)) \<longrightarrow>
      fst (redo s) = Inl AttributeError \<and> cells (snd (redo s)) = cells s \<and>
      undo_actions (snd (redo s)) = undo_actions s"
proof
  assume h: "redo_actions s = xs @ [ObjectInsertAction False Check p c] \<and>
      get_child_anchor s (get_iter_at_offset s p) \<notin> range (\<lambda>v. Some (CheckButton v))"
  have r: "ObjectInsertAction_remove Check p c (InternalActionHandler_enter s\<lparr>redo_actions := xs\<rparr>) = (Inl AttributeError, InternalActionHandler_enter s\<lparr>redo_actions := xs\<rparr>)"
    using ObjectInsertAction_remove_result(5) [of "InternalActionHandler_enter s\<lparr>redo_actions := xs\<rparr>" p c] h by simp
  show "fst (redo s) = Inl AttributeError \<and> cells (snd (redo s)) = cells s \<and>
      undo_actions (snd (redo s)) = undo_actions s"
    using redo_outcome [of s xs "ObjectInsertAction False Check p c", unfolded action_replay_parts] h r
    by simp
qed

lemma redo_add_bullet:
  "redo_actions s = xs @ [ObjectInsertAction True Bullet p c] \<longrightarrow>
      fst (redo s) = Inr () \<and> cells (snd (redo s)) = added_cells s p [Anchor Image] \<and>
      undo_actions (snd (redo s)) = undo_actions s @ [ObjectInsertAction True Bullet p c]"
  using redo_outcome [of s xs "ObjectInsertAction True Bullet p c", unfolded action_replay_parts]
  by (simp add: ObjectInsertAction_add_result ObjectInsertAction_remove_result)

lemma redo_add_check:
  "redo_actions s = xs @ [ObjectInsertAction True Check p (Some v)] \<longrightarrow>
      fst (redo s) = Inr () \<and> cells (snd (redo s)) = added_cells s p [Anchor (CheckButton v)] \<and>
      undo_actions (snd (redo s)) = undo_actions s @ [ObjectInsertAction True Check p (Some v)]"
  using redo_outcome [of s xs "ObjectInsertAction True Check p (Some v)", unfolded action_replay_parts]
  by (simp add: ObjectInsertAction_add_result ObjectInsertAction_remove_result)

lemma redo_add_unset:
  "redo_actions s = xs @ [ObjectInsertAction True Check p None] \<longrightarrow>
      fst (redo s) = Inl AttributeError \<and> cells (snd (redo s)) = cells s \<and>
      undo_actions (snd (redo s)) = undo_actions s"
  using redo_outcome [of s xs "ObjectInsertAction True Check p None", unfolded action_replay_parts]
  by (simp add: ObjectInsertAction_add_result ObjectInsertAction_remove_result)

lemma undo_empty:
  "undo_actions s = [] \<longrightarrow> undo s = (Inr (), s\<lparr>printed := printed s @ [NothingToUndo]\<rparr>)"
  by (simp add: undo_def)

lemma redo_empty:
  "redo_actions s = [] \<longrightarrow> redo s = (Inr (), s\<lparr>printed := printed s @ [NothingToRedo]\<rparr>)"
  by (simp add: redo_def)

lemma undo_composite:
  "undo_actions s = xs @ [CompositeAction as] \<longrightarrow>
      cells (snd (undo s)) =
        cells (snd (undo_reversed as (InternalActionHandler_enter s\<lparr>undo_actions := xs\<rparr>)))"
  using undo_outcome [of s xs "CompositeAction as"]
  by (simp split: prod.splits sum.splits)

lemma redo_composite:
  "redo_actions s = xs @ [CompositeAction as] \<longrightarrow>
      cells (snd (redo s)) =
        cells (snd (redo_in_order as (InternalActionHandler_enter s\<lparr>redo_actions := xs\<rparr>)))"
  using redo_outcome [of s xs "CompositeAction as"]
  by (simp split: prod.splits sum.splits)

lemma checklist_repeated:
  "snd (run (\<lambda>_. None) [ToggleChecklist, Insert 1 [10]] NoteBuffer_init) =
     \<lparr>cells = [(Anchor (CheckButton False), {}), (Chr 10, {}), (Anchor (CheckButton False), {})],
      tag_table = map Named TAG_DEFINITIONS, insert_mark = 3, selection_bound = 3,
      internal_action_count = 0, in_composite = 0, composite_actions = [],
      undo_actions = [CompositeAction [ObjectInsertAction True Check 0 None],
        CompositeAction [AdditionAction [10] 1, ObjectInsertAction True Check 1 None]],
      redo_actions = [], idle_sources = 2, content_changed = 0, printed = []\<rparr>"
  by code_simp

text \<open>
  C6 (amended): with nothing to undo (or to redo) the call prints its warning, returns
  normally and changes nothing else: the buffer and both stacks are as before. Otherwise
  \<open>undo\<close> takes the last action off the undo stack and runs its \<open>undo\<close> on the buffer. When
  that returns, the action (the same one, with its \<open>checked\<close> attribute as \<open>remove\<close> left
  it) is appended to the redo stack; when it raises, \<open>undo\<close> raises the same error, the
  redo stack is as before and the action is on neither stack. \<open>redo\<close> does the same from
  the redo stack to the undo stack. What the replay does to the buffer, by the class of
  the action: undoing an \<open>AdditionAction\<close> (redoing a \<open>DeletionAction\<close>) takes out the cells
  from its position over the length of its text; undoing a \<open>DeletionAction\<close> (redoing an
  \<open>AdditionAction\<close>) puts its text in at its position; a \<open>TagAction\<close> clears or sets its tag
  between its two offsets; an \<open>ObjectInsertAction\<close> takes out the cell at its position
  (raising \<open>AttributeError\<close> for a check box where no check button stands) or puts its
  object in there (raising \<open>AttributeError\<close> for a check box whose \<open>checked\<close> was never set);
  a \<open>CompositeAction\<close> undoes its children from the last to the first and redoes them
  from the first to the last.
\<close>

theorem undo_redo_transfer:
  "(undo_actions s = [] \<longrightarrow> undo s = (Inr (), s\<lparr>printed := printed s @ [NothingToUndo]\<rparr>))
   \<and> (redo_actions s = [] \<longrightarrow> redo s = (Inr (), s\<lparr>printed := printed s @ [NothingToRedo]\<rparr>))
   \<and> (undo_actions s = xs @ [a] \<longrightarrow>
     undo_actions (snd (undo s)) = xs \<and>
     cells (snd (undo s)) =
       cells (snd (action_undo a (InternalActionHandler_enter s\<lparr>undo_actions := xs\<rparr>))) \<and>
     (case fst (action_undo a (InternalActionHandler_enter s\<lparr>undo_actions := xs\<rparr>)) of
        Inr a' \<Rightarrow> fst (undo s) = Inr () \<and> redo_actions (snd (undo s)) = redo_actions s @ [a'] \<and>
                  forget_checked a' = forget_checked a
      | Inl e \<Rightarrow> fst (undo s) = Inl e \<and> redo_actions (snd (undo s)) = redo_actions s))
   \<and> (redo_actions s = xs @ [a] \<longrightarrow>
     redo_actions (snd (redo s)) = xs \<and>
     cells (snd (redo s)) =
       cells (snd (action_redo a (InternalActionHandler_enter s\<lparr>redo_actions := xs\<rparr>))) \<and>
     (case fst (action_redo a (InternalActionHandler_enter s\<lparr>redo_actions := xs\<rparr>)) of
        Inr a' \<Rightarrow> fst (redo s) = Inr () \<and> undo_actions (snd (redo s)) = undo_actions s @ [a'] \<and>
                  forget_checked a' = forget_checked a
      | Inl e \<Rightarrow> fst (redo s) = Inl e \<and> undo_actions (snd (redo s)) = undo_actions s))
   \<and> (undo_actions s = xs @ [AdditionAction t p] \<longrightarrow>
      fst (undo s) = Inr () \<and> cells (snd (undo s)) = removed_cells s p (p + int (length t)) \<and>
      redo_actions (snd (undo s)) = redo_actions s @ [AdditionAction t p])
   \<and> (undo_actions s = xs @ [DeletionAction t p d] \<longrightarrow>
      fst (undo s) = Inr () \<and> cells (snd (undo s)) = added_cells s p (map Chr t) \<and>
      redo_actions (snd (undo s)) = redo_actions s @ [DeletionAction t p d])
   \<and> (undo_actions s = xs @ [TagAction n x y is_addition] \<longrightarrow>
      fst (undo s) = Inr () \<and> cells (snd (undo s)) = retagged_cells s n x y (\<not> is_addition) \<and>
      redo_actions (snd (undo s)) = redo_actions s @ [TagAction n x y is_addition])
   \<and> (undo_actions s = xs @ [ObjectInsertAction True Bullet p c] \<longrightarrow>
      fst (undo s) = Inr () \<and> cells (snd (undo s)) = removed_cells s p (p + 1) \<and>
      redo_actions (snd (undo s)) = redo_actions s @ [ObjectInsertAction True Bullet p c])
   \<and> (undo_actions s = xs @ [ObjectInsertAction True Check p c] \<and>
      get_child_anchor s (get_iter_at_offset s p) = Some (CheckButton v) \<longrightarrow>
      fst (undo s) = Inr () \<and> cells (snd (undo s)) = removed_cells s p (p + 1) \<and>
      redo_actions (snd (undo s)) = redo_actions s @ [ObjectInsertAction True Check p (Some v)])
   \<and> (undo_actions s = xs @ [ObjectInsertAction True Check p c] \<and>
      get_child_anchor s (get_iter_at_offset s p) \<notin> range (\<lambda>v. Some (CheckButton v)) \<longrightarrow>
      fst (undo s) = Inl AttributeError \<and> cells (snd (undo s)) = cells s \<and>
      redo_actions (snd (undo s)) = redo_actions s)
   \<and> (undo_actions s = xs @ [ObjectInsertAction False Bullet p c] \<longrightarrow>
      fst (undo s) = Inr () \<and> cells (snd (undo s)) = added_cells s p [Anchor Image] \<and>
      redo_actions (snd (undo s)) = redo_actions s @ [ObjectInsertAction False Bullet p c])
   \<and> (undo_actions s = xs @ [ObjectInsertAction False Check p (Some v)] \<longrightarrow>
      fst (undo s) = Inr () \<and> cells (snd (undo s)) = added_cells s p [Anchor (CheckButton v)] \<and>
      redo_actions (snd (undo s)) = redo_actions s @ [ObjectInsertAction False Check p (Some v)])
   \<and> (undo_actions s = xs @ [ObjectInsertAction False Check p None] \<longrightarrow>
      fst (undo s) = Inl AttributeError \<and> cells (snd (undo s)) = cells s \<and>
      redo_actions (snd (undo s)) = redo_actions s)
   \<and> (redo_actions s = xs @ [AdditionAction t p] \<longrightarrow>
      fst (redo s) = Inr () \<and> cells (snd (redo s)) = added_cells s p (map Chr t) \<and>
      undo_actions (snd (redo s)) = undo_actions s @ [AdditionAction t p])
   \<and> (redo_actions s = xs @ [DeletionAction t p d] \<longrightarrow>
      fst (redo s) = Inr () \<and> cells (snd (redo s)) = removed_cells s p (p + int (length t)) \<and>
      undo_actions (snd (redo s)) = undo_actions s @ [DeletionAction t p d])
   \<and> (redo_actions s = xs @ [TagAction n x y is_addition] \<longrightarrow>
      fst (redo s) = Inr () \<and> cells (snd (redo s)) = retagged_cells s n x y is_addition \<and>
      undo_actions (snd (redo s)) = undo_actions s @ [TagAction n x y is_addition])
   \<and> (redo_actions s = xs @ [ObjectInsertAction False Bullet p c] \<longrightarrow>
      fst (redo s) = Inr () \<and> cells (snd (redo s)) = removed_cells s p (p + 1) \<and>
      undo_actions (snd (redo s)) = undo_actions s @ [ObjectInsertAction False Bullet p c])
   \<and> (redo_actions s = xs @ [ObjectInsertAction False Check p c] \<and>
      get_child_anchor s (get_iter_at_offset s p) = Some (CheckButton v) \<longrightarrow>
      fst (redo s) = Inr () \<and> cells (snd (redo s)) = removed_cells s p (p + 1) \<and>
      undo_actions (snd (redo s)) = undo_actions s @ [ObjectInsertAction False Check p (Some v)])
   \<and> (redo_actions s = xs @ [ObjectInsertAction False Check p c] \<and>
      get_child_anchor s (get_iter_at_offset s p) \<notin> range (\<lambda>v. Some (CheckButton v)) \<longrightarrow>
      fst (redo s) = Inl AttributeError \<and> cells (snd (redo s)) = cells s \<and>
      undo_actions (snd (redo s)) = undo_actions s)
   \<and> (redo_actions s = xs @ [ObjectInsertAction True Bullet p c] \<longrightarrow>
      fst (redo s) = Inr () \<and> cells (snd (redo s)) = added_cells s p [Anchor Image] \<and>
      undo_actions (snd (redo s)) = undo_actions s @ [ObjectInsertAction True Bullet p c])
   \<and> (redo_actions s = xs @ [ObjectInsertAction True Check p (Some v)] \<longrightarrow>
      fst (redo s) = Inr () \<and> cells (snd (redo s)) = added_cells s p [Anchor (CheckButton v)] \<and>
      undo_actions (snd (redo s)) = undo_actions s @ [ObjectInsertAction True Check p (Some v)])
   \<and> (redo_actions s = xs @ [ObjectInsertAction True Check p None] \<longrightarrow>
      fst (redo s) = Inl AttributeError \<and> cells (snd (redo s)) = cells s \<and>
      undo_actions (snd (redo s)) = undo_actions s)
   \<and> (undo_actions s = xs @ [CompositeAction as] \<longrightarrow>
      cells (snd (undo s)) =
        cells (snd (undo_reversed as (InternalActionHandler_enter s\<lparr>undo_actions := xs\<rparr>))))
   \<and> (redo_actions s = xs @ [CompositeAction as] \<longrightarrow>
      cells (snd (redo s)) =
        cells (snd (redo_in_order as (InternalActionHandler_enter s\<lparr>redo_actions := xs\<rparr>))))
   \<and> (undo_reversed (as @ [z]) s0 =
     (case action_undo z s0 of
        (Inl e, s1) \<Rightarrow> (Inl e, s1)
      | (Inr z', s1) \<Rightarrow>
          (case undo_reversed as s1 of
             (Inl e, s2) \<Rightarrow> (Inl e, s2)
           | (Inr as', s2) \<Rightarrow> (Inr (as' @ [z']), s2))))
   \<and> (redo_in_order (z # as) s0 =
     (case action_redo z s0 of
        (Inl e, s1) \<Rightarrow> (Inl e, s1)
      | (Inr z', s1) \<Rightarrow>
          (case redo_in_order as s1 of
             (Inl e, s2) \<Rightarrow> (Inl e, s2)
           | (Inr as', s2) \<Rightarrow> (Inr (z' # as'), s2))))"
  by (intro conjI) (rule undo_empty redo_empty undo_outcome redo_outcome undo_AdditionAction undo_DeletionAction undo_TagAction undo_remove_bullet undo_remove_check undo_remove_missing undo_add_bullet undo_add_check undo_add_unset redo_AdditionAction redo_DeletionAction redo_TagAction redo_remove_bullet redo_remove_check redo_remove_missing redo_add_bullet redo_add_check redo_add_unset undo_composite redo_composite undo_reversed_snoc redo_in_order_cons)+

theorem undo_redo_transfer_witness:
  "undo NoteBuffer_init = (Inr (), NoteBuffer_init\<lparr>printed := [NothingToUndo]\<rparr>)
   \<and> redo NoteBuffer_init = (Inr (), NoteBuffer_init\<lparr>printed := [NothingToRedo]\<rparr>)
   \<and> fst (undo (insert_text (\<lambda>_. None) NoteBuffer_init 0 (py_str ''a''))) = Inr ()
   \<and> cells (snd (undo (insert_text (\<lambda>_. None) NoteBuffer_init 0 (py_str ''a'')))) = []
   \<and> undo_actions (snd (undo (insert_text (\<lambda>_. None) NoteBuffer_init 0 (py_str ''a'')))) = []
   \<and> redo_actions (snd (undo (insert_text (\<lambda>_. None) NoteBuffer_init 0 (py_str ''a'')))) = [AdditionAction (py_str ''a'') 0]
   \<and> fst (redo (snd (undo (insert_text (\<lambda>_. None) NoteBuffer_init 0 (py_str ''a''))))) = Inr ()
   \<and> cells (snd (redo (snd (undo (insert_text (\<lambda>_. None) NoteBuffer_init 0 (py_str ''a'')))))) = [(Chr (of_char CHR ''a''), {})]
   \<and> redo_actions (snd (redo (snd (undo (insert_text (\<lambda>_. None) NoteBuffer_init 0 (py_str ''a'')))))) = []
   \<and> undo_actions (snd (redo (snd (undo (insert_text (\<lambda>_. None) NoteBuffer_init 0 (py_str ''a'')))))) = [AdditionAction (py_str ''a'') 0]
   \<and> fst (undo (NoteBuffer_init\<lparr>undo_actions := [DeletionAction (py_str ''a'') 0 Backward]\<rparr>)) = Inr ()
   \<and> cells (snd (undo (NoteBuffer_init\<lparr>undo_actions := [DeletionAction (py_str ''a'') 0 Backward]\<rparr>))) = [(Chr (of_char CHR ''a''), {})]
   \<and> redo_actions (snd (undo (NoteBuffer_init\<lparr>undo_actions := [DeletionAction (py_str ''a'') 0 Backward]\<rparr>))) = [DeletionAction (py_str ''a'') 0 Backward]
   \<and> fst (undo (snd (run (\<lambda>_. None) [ToggleChecklist, Insert 1 [10]] NoteBuffer_init))) = Inl AttributeError
   \<and> undo_actions (snd (undo (snd (run (\<lambda>_. None) [ToggleChecklist, Insert 1 [10]] NoteBuffer_init)))) = [CompositeAction [ObjectInsertAction True Check 0 None]]
   \<and> redo_actions (snd (undo (snd (run (\<lambda>_. None) [ToggleChecklist, Insert 1 [10]] NoteBuffer_init)))) = []"
proof -
  let ?s = "insert_text (\<lambda>_. None) NoteBuffer_init 0 (py_str ''a'')"
  let ?u = "snd (undo ?s)"
  let ?d = "NoteBuffer_init\<lparr>undo_actions := [DeletionAction (py_str ''a'') 0 Backward]\<rparr>"
  let ?c = "snd (run (\<lambda>_. None) [ToggleChecklist, Insert 1 [10]] NoteBuffer_init)"
  have h0: "undo_actions NoteBuffer_init = []" "redo_actions NoteBuffer_init = []"
    by (simp_all add: NoteBuffer_init_def)
  have w0: "undo NoteBuffer_init = (Inr (), NoteBuffer_init\<lparr>printed := printed NoteBuffer_init @ [NothingToUndo]\<rparr>)"
    "redo NoteBuffer_init = (Inr (), NoteBuffer_init\<lparr>printed := printed NoteBuffer_init @ [NothingToRedo]\<rparr>)"
    using undo_redo_transfer [where s = "NoteBuffer_init" and xs = "[]" and a = "AdditionAction (py_str ''a'') 0" and t = "py_str ''a''" and p = 0 and d = Backward
        and n = "[]" and x = 0 and y = 0 and is_addition = True and c = None and v = True
        and as = "[]" and z = "AdditionAction (py_str ''a'') 0" and ?s0.0 = NoteBuffer_init] h0 by blast+
  have h1: "undo_actions ?s = [] @ [AdditionAction (py_str ''a'') 0]"
    unfolding typed_a by simp
  have w1: "undo_actions ?u = []" "fst (undo ?s) = Inr ()"
    "cells ?u = removed_cells ?s 0 (0 + int (length (py_str ''a'')))"
    "redo_actions ?u = redo_actions ?s @ [AdditionAction (py_str ''a'') 0]"
    using undo_redo_transfer [where s = "?s" and xs = "[]" and a = "AdditionAction (py_str ''a'') 0" and t = "py_str ''a''" and p = 0 and d = Backward
        and n = "[]" and x = 0 and y = 0 and is_addition = True and c = None and v = True
        and as = "[]" and z = "AdditionAction (py_str ''a'') 0" and ?s0.0 = NoteBuffer_init] h1 by blast+
  have v1: "removed_cells ?s 0 (0 + int (length (py_str ''a''))) = []" "redo_actions ?s = []"
    unfolding typed_a by code_simp+
  have h2: "redo_actions ?u = [] @ [AdditionAction (py_str ''a'') 0]"
    unfolding typed_a_undone by simp
  have w2: "redo_actions (snd (redo ?u)) = []" "fst (redo ?u) = Inr ()"
    "cells (snd (redo ?u)) = added_cells ?u 0 (map Chr (py_str ''a''))"
    "undo_actions (snd (redo ?u)) = undo_actions ?u @ [AdditionAction (py_str ''a'') 0]"
    using undo_redo_transfer [where s = "?u" and xs = "[]" and a = "AdditionAction (py_str ''a'') 0" and t = "py_str ''a''" and p = 0 and d = Backward
        and n = "[]" and x = 0 and y = 0 and is_addition = True and c = None and v = True
        and as = "[]" and z = "AdditionAction (py_str ''a'') 0" and ?s0.0 = NoteBuffer_init] h2 by blast+
  have v2: "added_cells ?u 0 (map Chr (py_str ''a'')) = [(Chr (of_char CHR ''a''), {})]"
    "undo_actions ?u = []"
    unfolding typed_a_undone by code_simp+
  have h3: "undo_actions ?d = [] @ [DeletionAction (py_str ''a'') 0 Backward]"
    by simp
  have w3: "fst (undo ?d) = Inr ()" "cells (snd (undo ?d)) = added_cells ?d 0 (map Chr (py_str ''a''))"
    "redo_actions (snd (undo ?d)) = redo_actions ?d @ [DeletionAction (py_str ''a'') 0 Backward]"
    using undo_redo_transfer [where s = "?d" and xs = "[]" and a = "DeletionAction (py_str ''a'') 0 Backward" and t = "py_str ''a''" and p = 0 and d = Backward
        and n = "[]" and x = 0 and y = 0 and is_addition = True and c = None and v = True
        and as = "[]" and z = "DeletionAction (py_str ''a'') 0 Backward" and ?s0.0 = NoteBuffer_init] h3 by blast+
  have v3: "added_cells ?d 0 (map Chr (py_str ''a'')) = [(Chr (of_char CHR ''a''), {})]"
    "redo_actions ?d = []"
    by code_simp+
  have h4: "undo_actions ?c = [CompositeAction [ObjectInsertAction True Check 0 None]] @ [CompositeAction [AdditionAction [10] 1, ObjectInsertAction True Check 1 None]]"
    unfolding checklist_repeated by simp
  have w4: "undo_actions (snd (undo ?c)) = [CompositeAction [ObjectInsertAction True Check 0 None]]"
    "(case fst (action_undo (CompositeAction [AdditionAction [10] 1, ObjectInsertAction True Check 1 None]) (InternalActionHandler_enter ?c\<lparr>undo_actions := [CompositeAction [ObjectInsertAction True Check 0 None]]\<rparr>)) of
        Inr a' \<Rightarrow> fst (undo ?c) = Inr () \<and> redo_actions (snd (undo ?c)) = redo_actions ?c @ [a'] \<and>
                  forget_checked a' = forget_checked (CompositeAction [AdditionAction [10] 1, ObjectInsertAction True Check 1 None])
      | Inl e \<Rightarrow> fst (undo ?c) = Inl e \<and> redo_actions (snd (undo ?c)) = redo_actions ?c)"
    using undo_redo_transfer [where s = "?c" and xs = "[CompositeAction [ObjectInsertAction True Check 0 None]]" and a = "CompositeAction [AdditionAction [10] 1, ObjectInsertAction True Check 1 None]" and t = "py_str ''a''" and p = 0 and d = Backward
        and n = "[]" and x = 0 and y = 0 and is_addition = True and c = None and v = True
        and as = "[]" and z = "CompositeAction [AdditionAction [10] 1, ObjectInsertAction True Check 1 None]" and ?s0.0 = NoteBuffer_init] h4 by blast+
  have v4: "fst (action_undo (CompositeAction [AdditionAction [10] 1, ObjectInsertAction True Check 1 None]) (InternalActionHandler_enter ?c\<lparr>undo_actions := [CompositeAction [ObjectInsertAction True Check 0 None]]\<rparr>)) = Inl AttributeError"
    "redo_actions ?c = []"
    unfolding checklist_repeated by code_simp+
  have w4': "fst (undo ?c) = Inl AttributeError" "redo_actions (snd (undo ?c)) = []"
    using w4(2) unfolding v4 by simp_all
  show ?thesis
    using w0 w1 w2 w3 w4(1) w4' unfolding v1 v2 v3 by (simp add: NoteBuffer_init_def)
qed

text \<open>
  C6 as stated fails where the replay raises. A check box repeated by a newline is
  recorded at the offset where the newline then goes; \<open>undo\<close> finds no check button there,
  raises \<open>AttributeError\<close> and leaves the buffer as it is, and the action it took off the
  undo stack is not on the redo stack.
\<close>

theorem undo_raises_and_drops_action:
  "fst (run (\<lambda>_. None) [ToggleChecklist, Insert 1 [10]] NoteBuffer_init) = Inr ()
   \<and> undo_actions (snd (run (\<lambda>_. None) [ToggleChecklist, Insert 1 [10]] NoteBuffer_init)) =
       [CompositeAction [ObjectInsertAction True Check 0 None],
        CompositeAction [AdditionAction [10] 1, ObjectInsertAction True Check 1 None]]
   \<and> fst (undo (snd (run (\<lambda>_. None) [ToggleChecklist, Insert 1 [10]] NoteBuffer_init))) =
       Inl AttributeError
   \<and> undo_actions (snd (undo (snd (run (\<lambda>_. None) [ToggleChecklist, Insert 1 [10]] NoteBuffer_init)))) =
       [CompositeAction [ObjectInsertAction True Check 0 None]]
   \<and> redo_actions (snd (undo (snd (run (\<lambda>_. None) [ToggleChecklist, Insert 1 [10]] NoteBuffer_init)))) = []
   \<and> cells (snd (undo (snd (run (\<lambda>_. None) [ToggleChecklist, Insert 1 [10]] NoteBuffer_init)))) =
       cells (snd (run (\<lambda>_. None) [ToggleChecklist, Insert 1 [10]] NoteBuffer_init))"
  by code_simp



subsection \<open>The guard around replay and rebuild\<close>












subsection \<open>The codec\<close>

lemma py_slice_shorter:
  assumes "0 \<le> a" and "k \<le> m"
  shows "py_slice xs a (a + int k) = take k (py_slice xs a (a + int m))"
  using assms by (auto simp add: py_slice_def py_bound_def Let_def min_def take_take nat_add_distrib
      nat_diff_distrib)

lemma py_slice_at_append:
  "py_slice (pre @ tok @ rest) (int (length pre)) (int (length pre) + int (length tok)) = tok"
  by (simp add: py_slice_def py_bound_def Let_def min_def nat_add_distrib)

lemma first_index_append:
  "c \<notin> set pre \<Longrightarrow> first_index c (pre @ c # rest) = Some (length pre)"
  by (induction pre) auto

lemma py_find_first:
  "c \<notin> set pre \<Longrightarrow> py_find (pre @ c # rest) c 0 = int (length pre)"
  by (simp add: py_find_def py_bound_def Let_def first_index_append)

lemma markup_scan_truncated_check:
  assumes ni: "py_find txt (of_char CHR ''#'') ci = ni" and pos: "0 \<le> ni"
    and chk: "py_slice txt ni (ni + 6) = py_str ''#check''"
    and short: "int (length txt) \<le> ni + 7"
  shows "markup_scan txt ci ot s =
           Some (Inl IndexError, TextBuffer_insert s (get_end_iter s) (py_slice txt ci ni))"
proof -
  have "py_slice txt ni (ni + int 2) = take 2 (py_slice txt ni (ni + int 6))"
    using pos by (intro py_slice_shorter) simp_all
  then have two: "py_slice txt ni (ni + 2) \<noteq> py_str ''##''"
    using chk by simp
  have idx: "py_index txt (ni + 7) = Inl IndexError"
    using short pos by (simp add: py_index_def Let_def)
  show ?thesis
    using ni pos chk two idx
    by (subst markup_scan.simps) (simp add: Let_def)
qed

lemma markup_scan_unknown_token:
  assumes ni: "py_find mk (of_char CHR ''#'') ci = ni" and pos: "ni \<noteq> - 1"
    and t1: "py_slice mk ni (ni + 2) \<noteq> py_str ''##''"
    and t2: "py_slice mk ni (ni + 6) \<noteq> py_str ''#check''"
    and t3: "py_slice mk ni (ni + 7) \<noteq> py_str ''#bullet''"
    and t4: "py_slice mk ni (ni + 4) \<noteq> py_str ''#tag''"
  shows "markup_scan mk ci ot s = None"
proof (rule ccontr)
  assume "markup_scan mk ci ot s \<noteq> None"
  then obtain y where y: "markup_scan mk ci ot s = Some y" by blast
  have "\<not> (mk = mk \<and> ci = ci)"
  proof (rule markup_scan.raw_induct
      [where P = "\<lambda>mk' ci' ot' s' y'. \<not> (mk' = mk \<and> ci' = ci)", OF _ y])
    fix f :: "ustring \<Rightarrow> int \<Rightarrow> (ustring \<rightharpoonup> nat) \<Rightarrow> note_buffer \<Rightarrow> ((error + unit) \<times> note_buffer) option"
    fix mk' ci' ot' s' y'
    assume IH: "\<And>mk' ci' ot' s' y'. f mk' ci' ot' s' = Some y' \<Longrightarrow> \<not> (mk' = mk \<and> ci' = ci)"
    assume body: "(let next_index = py_find mk' (of_char CHR ''#'') ci'
      in if next_index = - 1
         then Some (Inr (), TextBuffer_insert s' (get_end_iter s') (py_slice_from mk' ci'))
         else (let s1 = TextBuffer_insert s' (get_end_iter s') (py_slice mk' ci' next_index)
               in if py_slice mk' next_index (next_index + 2) = py_str ''##''
                  then f mk' (next_index + 2) ot'
                         (TextBuffer_insert s1 (get_end_iter s1) (py_str ''#''))
                  else if py_slice mk' next_index (next_index + 6) = py_str ''#check''
                  then (case py_index mk' (next_index + 7) of
                          Inl e \<Rightarrow> Some (Inl e, s1)
                        | Inr c \<Rightarrow>
                            (case py_int c of
                               Inl e \<Rightarrow> Some (Inl e, s1)
                             | Inr v \<Rightarrow>
                                 f mk' (next_index + 8) ot'
                                   (snd (add_check_button s1 (get_end_iter s1) (v \<noteq> 0)))))
                  else if py_slice mk' next_index (next_index + 7) = py_str ''#bullet''
                  then f mk' (next_index + 8) ot'
                         (snd (add_bullet s1 (get_end_iter s1)))
                  else if py_slice mk' next_index (next_index + 4) = py_str ''#tag''
                  then (let end_tag_index = py_find mk' (of_char CHR '':'') (next_index + 6);
                            tag_name = py_slice mk' (next_index + 5) end_tag_index
                        in (case ot' tag_name of
                              Some mark \<Rightarrow>
                                f mk' (next_index + 6 + int (length tag_name))
                                  (ot'(tag_name := None))
                                  (apply_tag_by_name s1 tag_name mark (get_end_iter s1))
                            | None \<Rightarrow>
                                f mk' (next_index + 6 + int (length tag_name))
                                  (ot'(tag_name \<mapsto> get_end_iter s1)) s1))
                  else f mk' ci' ot' s1)) = Some y'"
    show "\<not> (mk' = mk \<and> ci' = ci)"
    proof
      assume e: "mk' = mk \<and> ci' = ci"
      have "f mk ci ot' (TextBuffer_insert s' (get_end_iter s') (py_slice mk ci ni)) = Some y'"
        using body ni pos t1 t2 t3 t4 unfolding Let_def by (simp add: e)
      then show False using IH by blast
    qed
  qed
  then show False by simp
qed

text \<open>
  The codec on the tokens of the format: a closed tag, a check box, a bullet, an escaped
  \<open>#\<close>; and the encoder on a check box and on a tag that ends before the end of the buffer.
\<close>

lemma codec_examples:
  "map_option (\<lambda>(r, s). (r, cells s))
     (set_from_internal_markup NoteBuffer_init (py_str ''#tag:bold:abc#tag:bold:'')) =
     Some (Inr (), [(Chr (of_char CHR ''a''), {Named (py_str ''bold'')}),
                    (Chr (of_char CHR ''b''), {Named (py_str ''bold'')}),
                    (Chr (of_char CHR ''c''), {Named (py_str ''bold'')})])"
  "map_option (\<lambda>(r, s). (r, cells s))
     (set_from_internal_markup NoteBuffer_init (py_str ''#check:1x##y#bullet:#check:0'')) =
     Some (Inr (), [(Anchor (CheckButton True), {}), (Chr (of_char CHR ''x''), {}),
                    (Chr (of_char CHR ''#''), {}), (Chr (of_char CHR ''y''), {}),
                    (Anchor Image, {}), (Anchor (CheckButton False), {})])"
  "fst (get_internal_markup (snd (add_check_button NoteBuffer_init 0 True))) = py_str ''#check:1''"
  "fst (get_internal_markup
     (snd (add_tag (insert_text (\<lambda>_. None) NoteBuffer_init 0 (py_str ''abc'')) (py_str ''bold'') 0 2))) =
     py_str ''#tag:bold:ab#tag:bold:c''"
  by code_simp+

lemma round_trip_evaluations:
  "map fst (cells (insert_text (\<lambda>_. None) NoteBuffer_init 0 (py_str ''##''))) =
     [Chr (of_char CHR ''#''), Chr (of_char CHR ''#'')]
   \<and> fst (get_internal_markup (insert_text (\<lambda>_. None) NoteBuffer_init 0 (py_str ''##''))) = py_str ''##''
   \<and> map_option (\<lambda>(r, s). (r, map fst (cells s)))
        (set_from_internal_markup (insert_text (\<lambda>_. None) NoteBuffer_init 0 (py_str ''##''))
           (py_str ''##'')) = Some (Inr (), [Chr (of_char CHR ''#'')])
   \<and> cells (snd (add_tag (insert_text (\<lambda>_. None) NoteBuffer_init 0 (py_str ''abc'')) (py_str ''bold'') 0 3)) =
       [(Chr (of_char CHR ''a''), {Named (py_str ''bold'')}),
        (Chr (of_char CHR ''b''), {Named (py_str ''bold'')}),
        (Chr (of_char CHR ''c''), {Named (py_str ''bold'')})]
   \<and> fst (get_internal_markup
        (snd (add_tag (insert_text (\<lambda>_. None) NoteBuffer_init 0 (py_str ''abc'')) (py_str ''bold'') 0 3))) =
       py_str ''#tag:bold:abc''
   \<and> map_option (\<lambda>(r, s). (r, cells s))
        (set_from_internal_markup
           (snd (add_tag (insert_text (\<lambda>_. None) NoteBuffer_init 0 (py_str ''abc'')) (py_str ''bold'') 0 3))
           (py_str ''#tag:bold:abc'')) =
       Some (Inr (), [(Chr (of_char CHR ''a''), {}), (Chr (of_char CHR ''b''), {}),
                      (Chr (of_char CHR ''c''), {})])"
  by code_simp

text \<open>
  C1 fails on the code. \<open>get_internal_markup\<close> writes a \<open>#\<close> of the buffer as one \<open>#\<close>, not
  as \<open>##\<close>: the buffer holding \<open>##\<close> is encoded as \<open>##\<close> and decoded as the one character
  \<open>#\<close>, and the buffer holding \<open>#\<close> is encoded as \<open>#\<close>, on which \<open>set_from_internal_markup\<close>
  never returns. And the encoder's loop stops before the end iterator, so a tag that
  reaches the end of the buffer is opened and never closed: \<open>abc\<close> in bold is encoded as
  \<open>#tag:bold:abc\<close> and decoded without the tag.
\<close>

theorem round_trip_fails:
  "map fst (cells (insert_text (\<lambda>_. None) NoteBuffer_init 0 (py_str ''##''))) =
     [Chr (of_char CHR ''#''), Chr (of_char CHR ''#'')]
   \<and> fst (get_internal_markup (insert_text (\<lambda>_. None) NoteBuffer_init 0 (py_str ''##''))) = py_str ''##''
   \<and> map_option (\<lambda>(r, s). (r, map fst (cells s)))
        (set_from_internal_markup (insert_text (\<lambda>_. None) NoteBuffer_init 0 (py_str ''##''))
           (py_str ''##'')) = Some (Inr (), [Chr (of_char CHR ''#'')])
   \<and> fst (get_internal_markup (insert_text (\<lambda>_. None) NoteBuffer_init 0 (py_str ''#''))) = py_str ''#''
   \<and> set_from_internal_markup (insert_text (\<lambda>_. None) NoteBuffer_init 0 (py_str ''#'')) (py_str ''#'') = None
   \<and> cells (snd (add_tag (insert_text (\<lambda>_. None) NoteBuffer_init 0 (py_str ''abc'')) (py_str ''bold'') 0 3)) =
       [(Chr (of_char CHR ''a''), {Named (py_str ''bold'')}),
        (Chr (of_char CHR ''b''), {Named (py_str ''bold'')}),
        (Chr (of_char CHR ''c''), {Named (py_str ''bold'')})]
   \<and> fst (get_internal_markup
        (snd (add_tag (insert_text (\<lambda>_. None) NoteBuffer_init 0 (py_str ''abc'')) (py_str ''bold'') 0 3))) =
       py_str ''#tag:bold:abc''
   \<and> map_option (\<lambda>(r, s). (r, cells s))
        (set_from_internal_markup
           (snd (add_tag (insert_text (\<lambda>_. None) NoteBuffer_init 0 (py_str ''abc'')) (py_str ''bold'') 0 3))
           (py_str ''#tag:bold:abc'')) =
       Some (Inr (), [(Chr (of_char CHR ''a''), {}), (Chr (of_char CHR ''b''), {}),
                      (Chr (of_char CHR ''c''), {})])"
proof -
  have m: "fst (get_internal_markup (insert_text (\<lambda>_. None) NoteBuffer_init 0 (py_str ''#''))) = py_str ''#''"
    by code_simp
  have "markup_scan (py_str ''#'') 0 Map.empty
          (set_text (InternalActionHandler_enter
             (insert_text (\<lambda>_. None) NoteBuffer_init 0 (py_str ''#''))) []) = None"
    by (rule markup_scan_unknown_token [where ni = 0])
      (simp_all add: py_find_def py_slice_def py_bound_def)
  then have d: "set_from_internal_markup (insert_text (\<lambda>_. None) NoteBuffer_init 0 (py_str ''#''))
      (py_str ''#'') = None"
    unfolding set_from_internal_markup_def by simp
  show ?thesis
    using round_trip_evaluations m d by blast
qed

text \<open>
  C9 as stated fails: a \<open>#tag:\<close> marker whose closing \<open>:\<close> is never found does not raise.
  \<open>find\<close> returns -1, the slice \<open>text[next_index+5:-1]\<close> takes the name up to the last
  character, and the scan ends normally.
\<close>

theorem unterminated_tag_returns:
  "map_option (\<lambda>(r, s). (r, cells s)) (set_from_internal_markup NoteBuffer_init (py_str ''#tag:bold'')) = Some (Inr (), [])"
  by code_simp

text \<open>
  C9 (amended): when the scan stands before a \<open>#check\<close> token that is cut off before its
  state character (the string ends less than two characters after \<open>#check\<close>), decoding
  raises \<open>IndexError\<close>; in particular when such a token is the first \<open>#\<close> of the string.
  The guard counter is then back at its value from before.
\<close>

theorem truncated_check_raises:
  "(py_find txt (of_char CHR ''#'') ci = ni \<and> 0 \<le> ni \<and>
    py_slice txt ni (ni + 6) = py_str ''#check'' \<and> int (length txt) \<le> ni + 7 \<longrightarrow>
      map_option fst (markup_scan txt ci ot s) = Some (Inl IndexError))
   \<and> (of_char CHR ''#'' \<notin> set pre \<and> length rest < 2 \<longrightarrow>
      map_option fst (set_from_internal_markup s (pre @ py_str ''#check'' @ rest)) =
        Some (Inl IndexError) \<and>
      map_option (internal_action_count \<circ> snd)
        (set_from_internal_markup s (pre @ py_str ''#check'' @ rest)) =
        Some (internal_action_count s))"
proof (intro conjI impI)
  assume "py_find txt (of_char CHR ''#'') ci = ni \<and> 0 \<le> ni \<and>
    py_slice txt ni (ni + 6) = py_str ''#check'' \<and> int (length txt) \<le> ni + 7"
  then show "map_option fst (markup_scan txt ci ot s) = Some (Inl IndexError)"
    using markup_scan_truncated_check [of "txt" ci ni ot s] by simp
next
  assume h: "of_char CHR ''#'' \<notin> set pre \<and> length rest < 2"
  let ?txt = "pre @ py_str ''#check'' @ rest"
  let ?s0 = "set_text (InternalActionHandler_enter s) []"
  have f: "py_find ?txt (of_char CHR ''#'') 0 = int (length pre)"
    using h py_find_first [of "of_char CHR ''#''" pre "py_str ''check'' @ rest"] by simp
  have c: "py_slice ?txt (int (length pre)) (int (length pre) + 6) = py_str ''#check''"
    using py_slice_at_append [of pre "py_str ''#check''" rest] by simp
  have l: "int (length ?txt) \<le> int (length pre) + 7"
    using h by simp
  have m: "markup_scan ?txt 0 Map.empty ?s0 =
      Some (Inl IndexError, TextBuffer_insert ?s0 (get_end_iter ?s0) (py_slice ?txt 0 (int (length pre))))"
    by (rule markup_scan_truncated_check [OF f _ c l]) simp
  show "map_option fst (set_from_internal_markup s ?txt) = Some (Inl IndexError)"
    unfolding set_from_internal_markup_def m by simp
  show "map_option (internal_action_count \<circ> snd) (set_from_internal_markup s ?txt) =
        Some (internal_action_count s)"
    unfolding set_from_internal_markup_def m by (simp add: set_text_def)
qed

theorem truncated_check_raises_witness:
  "py_find (py_str ''##ab#check:'') (of_char CHR ''#'') 2 = 4
   \<and> map_option fst (markup_scan (py_str ''##ab#check:'') 2 Map.empty NoteBuffer_init) = Some (Inl IndexError)
   \<and> map_option fst (set_from_internal_markup NoteBuffer_init (py_str ''ab#check:'')) = Some (Inl IndexError)
   \<and> map_option (internal_action_count \<circ> snd) (set_from_internal_markup NoteBuffer_init (py_str ''ab#check:'')) = Some 0"
proof -
  have h1: "py_find (py_str ''##ab#check:'') (of_char CHR ''#'') 2 = 4 \<and> (0::int) \<le> 4 \<and>
    py_slice (py_str ''##ab#check:'') 4 (4 + 6) = py_str ''#check'' \<and>
    int (length (py_str ''##ab#check:'')) \<le> 4 + 7"
    by (simp add: py_find_def py_slice_def py_bound_def)
  have h2: "of_char CHR ''#'' \<notin> set (py_str ''ab'') \<and> length (py_str '':'') < 2"
    by simp
  show ?thesis
    using truncated_check_raises [of "py_str ''##ab#check:''" 2 4 Map.empty NoteBuffer_init
        "py_str ''ab''" "py_str '':''"] h1 h2
    by (simp add: NoteBuffer_init_def)
qed

subsection \<open>Undoing and redoing a repeated bullet or check box\<close>

text \<open>
  C7 fails on the code. On a line that starts with a bullet or a check box, \<open>on_insert\<close>
  of a newline calls \<open>maybe_repeat\<close>, which adds the new object at the insertion offset and
  records its action there, and only then does the default handler insert the newline at
  that same offset, in front of the object. In the buffer the object stands one offset
  later than in its action. With a bullet, two \<open>undo\<close>s empty the buffer, but two \<open>redo\<close>s
  put the second bullet in front of the newline; with a check box the first \<open>undo\<close> raises
  \<open>AttributeError\<close> in \<open>ObjectInsertAction.remove\<close>, the buffer stays as it is and the action
  is lost from both stacks.
\<close>

theorem repeat_breaks_undo_redo:
  "map_prod id (\<lambda>s. (map fst (cells s), length (undo_actions s)))
     (run (\<lambda>_. None) [ToggleBullets, Insert 1 [10]] NoteBuffer_init) =
     (Inr (), [Anchor Image, Chr 10, Anchor Image], 2)
   \<and> map_prod id (\<lambda>s. (cells s, undo_actions s))
     (run (\<lambda>_. None) [ToggleBullets, Insert 1 [10], Undo, Undo] NoteBuffer_init) = (Inr (), [], [])
   \<and> map_prod id (\<lambda>s. (map fst (cells s), redo_actions s))
     (run (\<lambda>_. None) [ToggleBullets, Insert 1 [10], Undo, Undo, Redo, Redo] NoteBuffer_init) =
     (Inr (), [Anchor Image, Anchor Image, Chr 10], [])
   \<and> map_prod id (\<lambda>s. (map fst (cells s), length (undo_actions s)))
     (run (\<lambda>_. None) [ToggleChecklist, Insert 1 [10]] NoteBuffer_init) =
     (Inr (), [Anchor (CheckButton False), Chr 10, Anchor (CheckButton False)], 2)
   \<and> map_prod id (\<lambda>s. (map fst (cells s), length (undo_actions s), redo_actions s))
     (run (\<lambda>_. None) [ToggleChecklist, Insert 1 [10], Undo] NoteBuffer_init) =
     (Inl AttributeError, [Anchor (CheckButton False), Chr 10, Anchor (CheckButton False)], 1, [])
   \<and> map_prod id (\<lambda>s. (map fst (cells s), length (undo_actions s)))
     (run (\<lambda>_. None) [ToggleBullets, Type 1 [10]] NoteBuffer_init) =
     (Inr (), [Anchor Image, Chr 10, Anchor Image], 2)
   \<and> map_prod id (\<lambda>s. (map fst (cells s), redo_actions s))
     (run (\<lambda>_. None) [ToggleBullets, Type 1 [10], Undo, Undo, Redo, Redo] NoteBuffer_init) =
     (Inr (), [Anchor Image, Anchor Image, Chr 10], [])
   \<and> map_prod id (\<lambda>s. (map fst (cells s), length (undo_actions s), redo_actions s))
     (run (\<lambda>_. None) [ToggleChecklist, Type 1 [10], Undo] NoteBuffer_init) =
     (Inl AttributeError, [Anchor (CheckButton False), Chr 10, Anchor (CheckButton False)], 1, [])"
  by code_simp

end
